theory Spec2Isabelle
  imports Complex_Main
begin

section \<open>Numbers\<close>

text \<open>
  A JavaScript number is an IEEE 754 double.  A finite double is the real number it
  denotes, and an arithmetic operation yields its exact result rounded to the nearest
  double, ties to even (\<open>fl\<close>).  The exponent of the rounding is that of the binade of
  the argument, and \<open>-1022\<close> in the subnormal range.  Comparisons and \<^verbatim>\<open>Math.abs\<close> are
  exact.  Outside the model are \<^verbatim>\<open>NaN\<close> and the infinities, hence overflow and division
  by zero, and the sign of zero.  The standard leaves \<^verbatim>\<open>Math.sqrt\<close> and \<^verbatim>\<open>Math.pow\<close> to
  the implementation; they are taken as correctly rounded, which gives the exact square
  and the exact root wherever these are doubles.
\<close>

definition rne :: "real \<Rightarrow> int" where
  "rne q =
     (let f = \<lfloor>q\<rfloor> in
      if q - of_int f < 1 / 2 then f
      else if q - of_int f > 1 / 2 then f + 1
      else if even f then f else f + 1)"

definition fl :: "real \<Rightarrow> real" where
  "fl x =
     (if x = 0 then 0
      else
        let e = max \<lfloor>log 2 \<bar>x\<bar>\<rfloor> (- 1022);
            u = 2 powi (e - 52)
        in of_int (rne (x / u)) * u)"

definition isDouble :: "real \<Rightarrow> bool" where
  "isDouble x = (fl x = x)"

text \<open>
  The largest double is below \<open>2 ^ 1024\<close>: an operation whose rounded result is not
  gives an infinity in the program.  \<open>isFinite\<close> says of a result that it is in range.
\<close>

definition isFinite :: "real \<Rightarrow> bool" where
  "isFinite v = (\<bar>v\<bar> < 2 ^ 1024)"

definition fadd :: "real \<Rightarrow> real \<Rightarrow> real" where
  "fadd a b = fl (a + b)"

definition fsub :: "real \<Rightarrow> real \<Rightarrow> real" where
  "fsub a b = fl (a - b)"

definition fmul :: "real \<Rightarrow> real \<Rightarrow> real" where
  "fmul a b = fl (a * b)"

definition fdiv :: "real \<Rightarrow> real \<Rightarrow> real" where
  "fdiv a b = fl (a / b)"

text \<open>\<^verbatim>\<open>Math.sqrt(v)\<close> and \<^verbatim>\<open>Math.pow(v, 2)\<close>.\<close>

definition fsqrt :: "real \<Rightarrow> real" where
  "fsqrt v = fl (sqrt v)"

definition fpow2 :: "real \<Rightarrow> real" where
  "fpow2 v = fl (v * v)"


text \<open>
  The integers of magnitude up to \<open>2 ^ 40\<close>: on them the arithmetic of the interpolation
  is exact.
\<close>

definition isInteger :: "real \<Rightarrow> bool" where
  "isInteger v = (of_int \<lfloor>v\<rfloor> = v)"

definition smallInteger :: "real \<Rightarrow> bool" where
  "smallInteger v = (isInteger v \<and> \<bar>v\<bar> \<le> 2 ^ 40)"

section \<open>Element model\<close>

text \<open>
  The canvas element of \<^verbatim>\<open>schema.ts\<close> (\<^verbatim>\<open>CanvasElement\<close>, and the identical
  \<^verbatim>\<open>FieldElement\<close> of the field editor).  The fields carry the prefix \<open>el_\<close>; the
  optional fields are options.  The \<^verbatim>\<open>type\<close> tag is kept as the string it is at run time,
  because the editor stores the selected tool in it through an \<^verbatim>\<open>as any\<close> cast.
  The coordinates are numbers in the sense of the previous section.
\<close>

record CanvasElement =
  el_id :: string
  el_type :: string
  el_x :: real
  el_y :: real
  el_points :: "real list option"
  el_position :: "string option"
  el_team :: "string option"
  el_text :: "string option"

text \<open>\<^verbatim>\<open>Partial<CanvasElement>\<close>: every field may be absent.\<close>

record Changes =
  ch_id :: "string option"
  ch_type :: "string option"
  ch_x :: "real option"
  ch_y :: "real option"
  ch_points :: "real list option"
  ch_position :: "string option"
  ch_team :: "string option"
  ch_text :: "string option"

text \<open>The object spread \<^verbatim>\<open>{ ...el, ...changes }\<close>: a field present in the changes wins.\<close>

definition spread :: "CanvasElement \<Rightarrow> Changes \<Rightarrow> CanvasElement" where
  "spread el changes =
     \<lparr> el_id = (case ch_id changes of None \<Rightarrow> el_id el | Some v \<Rightarrow> v),
       el_type = (case ch_type changes of None \<Rightarrow> el_type el | Some v \<Rightarrow> v),
       el_x = (case ch_x changes of None \<Rightarrow> el_x el | Some v \<Rightarrow> v),
       el_y = (case ch_y changes of None \<Rightarrow> el_y el | Some v \<Rightarrow> v),
       el_points = (case ch_points changes of None \<Rightarrow> el_points el | Some v \<Rightarrow> Some v),
       el_position = (case ch_position changes of None \<Rightarrow> el_position el | Some v \<Rightarrow> Some v),
       el_team = (case ch_team changes of None \<Rightarrow> el_team el | Some v \<Rightarrow> Some v),
       el_text = (case ch_text changes of None \<Rightarrow> el_text el | Some v \<Rightarrow> Some v) \<rparr>"

section \<open>History stack of the canvas hook\<close>

text \<open>
  \<^verbatim>\<open>useCanvasState\<close>: the state is the triple, and every setter is a function from the
  previous triple to the next one (the updater passed to \<^verbatim>\<open>setHistory\<close>).
\<close>

record HistoryState =
  past :: "CanvasElement list list"
  present :: "CanvasElement list"
  future :: "CanvasElement list list"

definition setElements :: "CanvasElement list \<Rightarrow> HistoryState \<Rightarrow> HistoryState" where
  "setElements newElements prev =
     \<lparr> past = past prev @ [present prev], present = newElements, future = [] \<rparr>"

text \<open>
  \<^verbatim>\<open>addElement\<close> first gives an element without id a fresh one; \<open>nanoid\<close> is the string
  the generator returns at this call.
\<close>

definition addElement :: "string \<Rightarrow> CanvasElement \<Rightarrow> HistoryState \<Rightarrow> HistoryState" where
  "addElement nanoid element prev =
     (let element' = (if el_id element = [] then element\<lparr>el_id := nanoid\<rparr> else element)
      in \<lparr> past = past prev @ [present prev],
           present = present prev @ [element'],
           future = [] \<rparr>)"

definition updateElement :: "string \<Rightarrow> Changes \<Rightarrow> HistoryState \<Rightarrow> HistoryState" where
  "updateElement i changes prev =
     \<lparr> past = past prev @ [present prev],
       present = map (\<lambda>el. if el_id el = i then spread el changes else el) (present prev),
       future = [] \<rparr>"

definition removeElement :: "string \<Rightarrow> HistoryState \<Rightarrow> HistoryState" where
  "removeElement i prev =
     \<lparr> past = past prev @ [present prev],
       present = filter (\<lambda>el. el_id el \<noteq> i) (present prev),
       future = [] \<rparr>"

definition clearElements :: "HistoryState \<Rightarrow> HistoryState" where
  "clearElements prev =
     \<lparr> past = past prev @ [present prev], present = [], future = [] \<rparr>"

text \<open>
  \<^verbatim>\<open>newPast.pop() || []\<close>: an array is never falsy, so the fallback is taken only when
  nothing was popped, which the guard on the length excludes.  The model keeps both.
\<close>

definition undoAction :: "HistoryState \<Rightarrow> HistoryState" where
  "undoAction prev =
     (if length (past prev) = 0 then prev
      else
        let newPast = butlast (past prev);
            newPresent = (case rev (past prev) of [] \<Rightarrow> [] | popped # _ \<Rightarrow> popped)
        in \<lparr> past = newPast, present = newPresent, future = present prev # future prev \<rparr>)"

definition redoAction :: "HistoryState \<Rightarrow> HistoryState" where
  "redoAction prev =
     (if length (future prev) = 0 then prev
      else
        let newFuture = tl (future prev);
            newPresent = (case future prev of [] \<Rightarrow> [] | shifted # _ \<Rightarrow> shifted)
        in \<lparr> past = past prev @ [present prev], present = newPresent, future = newFuture \<rparr>)"

text \<open>The five mutating operations, as one user action each.\<close>

datatype push =
  SetElements "CanvasElement list"
  | AddElement string CanvasElement
  | UpdateElement string Changes
  | RemoveElement string
  | ClearElements

fun apply_push :: "HistoryState \<Rightarrow> push \<Rightarrow> HistoryState" where
  "apply_push h (SetElements es) = setElements es h"
| "apply_push h (AddElement nanoid e) = addElement nanoid e h"
| "apply_push h (UpdateElement i changes) = updateElement i changes h"
| "apply_push h (RemoveElement i) = removeElement i h"
| "apply_push h ClearElements = clearElements h"

definition pushes :: "HistoryState \<Rightarrow> push list \<Rightarrow> HistoryState" where
  "pushes h ops = foldl apply_push h ops"

section \<open>Animation interpolator\<close>

text \<open>
  \<^verbatim>\<open>getAnimatedElements\<close> of the canvas hook (the field editor has the same body, reading
  the progress from its state).  First as a function of values: the clone is the list
  itself, \<^verbatim>\<open>find\<close> yields the index of the first match, and the assignment to the found
  object is an update of the list at that index.
\<close>

definition isArrowType :: "string \<Rightarrow> bool" where
  "isArrowType t = (t \<in> set [''moveArrow'', ''passArrow'', ''shootArrow''])"

fun findIndex :: "('a \<Rightarrow> bool) \<Rightarrow> 'a list \<Rightarrow> nat option" where
  "findIndex P [] = None"
| "findIndex P (x # xs) = (if P x then Some 0 else map_option Suc (findIndex P xs))"

definition atStart :: "real list \<Rightarrow> CanvasElement \<Rightarrow> bool" where
  "atStart points el =
     (el_type el = ''player'' \<and>
      \<bar>fsub (el_x el) (points ! 0)\<bar> < 20 \<and>
      \<bar>fsub (el_y el) (points ! 1)\<bar> < 20)"

definition moveAlong :: "real list \<Rightarrow> real \<Rightarrow> CanvasElement \<Rightarrow> CanvasElement" where
  "moveAlong points progress playerAtStart =
     (let startX = points ! 0; startY = points ! 1; endX = points ! 2; endY = points ! 3
      in playerAtStart
           \<lparr> el_x := fadd startX (fdiv (fmul (fsub endX startX) progress) 100),
             el_y := fadd startY (fdiv (fmul (fsub endY startY) progress) 100) \<rparr>)"

text \<open>The body of the \<^verbatim>\<open>forEach\<close> over the arrows.\<close>

definition animateArrow :: "real \<Rightarrow> CanvasElement list \<Rightarrow> CanvasElement \<Rightarrow> CanvasElement list" where
  "animateArrow progress animatedElements arrow =
     (case el_points arrow of
        None \<Rightarrow> animatedElements
      | Some points \<Rightarrow>
          if length points < 4 then animatedElements
          else (case findIndex (atStart points) animatedElements of
                  None \<Rightarrow> animatedElements
                | Some i \<Rightarrow>
                    animatedElements[i := moveAlong points progress (animatedElements ! i)]))"

definition getAnimatedElements :: "CanvasElement list \<Rightarrow> real \<Rightarrow> CanvasElement list" where
  "getAnimatedElements elements progress =
     (let animatedElements = elements;
          arrowElements = filter (\<lambda>el. isArrowType (el_type el)) animatedElements
      in foldl (animateArrow progress) animatedElements arrowElements)"

text \<open>
  The same function over an explicit store, to speak about aliasing.  A heap is the list
  of the objects allocated so far and a reference is an index into it; an array of
  elements is a list of references.  \<^verbatim>\<open>JSON.parse(JSON.stringify(elements))\<close> allocates a
  copy of every element behind the existing objects; the loop then writes through the
  references of the copy.
\<close>

type_synonym heap = "CanvasElement list"

definition jsonClone :: "heap \<Rightarrow> nat list \<Rightarrow> heap \<times> nat list" where
  "jsonClone h elements =
     (h @ map (\<lambda>r. h ! r) elements, [length h ..< length h + length elements])"

definition animateArrowRef :: "real \<Rightarrow> nat list \<Rightarrow> heap \<Rightarrow> nat \<Rightarrow> heap" where
  "animateArrowRef progress animatedElements h arrow =
     (case el_points (h ! arrow) of
        None \<Rightarrow> h
      | Some points \<Rightarrow>
          if length points < 4 then h
          else (case List.find (\<lambda>r. atStart points (h ! r)) animatedElements of
                  None \<Rightarrow> h
                | Some playerAtStart \<Rightarrow>
                    h[playerAtStart := moveAlong points progress (h ! playerAtStart)]))"

definition getAnimatedElementsRef :: "heap \<Rightarrow> nat list \<Rightarrow> real \<Rightarrow> heap \<times> nat list" where
  "getAnimatedElementsRef h elements progress =
     (case jsonClone h elements of
        (h1, animatedElements) \<Rightarrow>
          let arrowElements = filter (\<lambda>r. isArrowType (el_type (h1 ! r))) animatedElements
          in (foldl (animateArrowRef progress animatedElements) h1 arrowElements,
              animatedElements))"

section \<open>Geometry helpers\<close>

text \<open>The helpers of the canvas utilities, operation by operation.\<close>

definition distance :: "real \<Rightarrow> real \<Rightarrow> real \<Rightarrow> real \<Rightarrow> real" where
  "distance x1 y1 x2 y2 = fsqrt (fadd (fpow2 (fsub x2 x1)) (fpow2 (fsub y2 y1)))"

definition isPointNearLine ::
  "real \<Rightarrow> real \<Rightarrow> real \<Rightarrow> real \<Rightarrow> real \<Rightarrow> real \<Rightarrow> real \<Rightarrow> bool" where
  "isPointNearLine px py x1 y1 x2 y2 threshold =
     (let lineLength = distance x1 y1 x2 y2 in
      if lineLength = 0 then distance px py x1 y1 \<le> threshold
      else
        let t = fdiv (fadd (fmul (fsub px x1) (fsub x2 x1)) (fmul (fsub py y1) (fsub y2 y1)))
                     (fmul lineLength lineLength) in
        if t < 0 then distance px py x1 y1 \<le> threshold
        else if t > 1 then distance px py x2 y2 \<le> threshold
        else
          let projX = fadd x1 (fmul t (fsub x2 x1));
              projY = fadd y1 (fmul t (fsub y2 y1))
          in distance px py projX projY \<le> threshold)"

text \<open>The parameter default \<^verbatim>\<open>threshold = 5\<close>: a call without the last argument.\<close>

definition isPointNearLineDefault ::
  "real \<Rightarrow> real \<Rightarrow> real \<Rightarrow> real \<Rightarrow> real \<Rightarrow> real \<Rightarrow> bool" where
  "isPointNearLineDefault px py x1 y1 x2 y2 = isPointNearLine px py x1 y1 x2 y2 5"

definition isPointInCircle :: "real \<Rightarrow> real \<Rightarrow> real \<Rightarrow> real \<Rightarrow> real \<Rightarrow> bool" where
  "isPointInCircle px py cx cy radius = (distance px py cx cy \<le> radius)"

section \<open>The point-near-segment test as specified\<close>

text \<open>
  The test in the words of the specification: the distance of two points, the scalar
  projection \<open>t\<close> of \<open>p\<close> onto the segment \<open>ab\<close>, the point of the segment at \<open>t\<close>, and the
  comparison with the threshold at the point the projection is clamped to.  The
  arithmetic is a parameter: \<open>r\<close> is applied to the result of every operation, so \<open>fl\<close>
  gives the test in the arithmetic of the program and the identity gives it over the
  real numbers.
\<close>

definition pointDistance :: "(real \<Rightarrow> real) \<Rightarrow> real \<times> real \<Rightarrow> real \<times> real \<Rightarrow> real" where
  "pointDistance r p q =
     r (sqrt (r (r (r (fst q - fst p) * r (fst q - fst p)) +
                 r (r (snd q - snd p) * r (snd q - snd p)))))"

definition scalarProjection ::
  "(real \<Rightarrow> real) \<Rightarrow> real \<times> real \<Rightarrow> real \<times> real \<Rightarrow> real \<times> real \<Rightarrow> real" where
  "scalarProjection r p a b =
     r (r (r (r (fst p - fst a) * r (fst b - fst a)) +
           r (r (snd p - snd a) * r (snd b - snd a))) /
        r (pointDistance r a b * pointDistance r a b))"

definition projectionPoint ::
  "(real \<Rightarrow> real) \<Rightarrow> real \<times> real \<Rightarrow> real \<times> real \<Rightarrow> real \<Rightarrow> real \<times> real" where
  "projectionPoint r a b t =
     (r (fst a + r (t * r (fst b - fst a))), r (snd a + r (t * r (snd b - snd a))))"

definition pointNearSegment ::
  "(real \<Rightarrow> real) \<Rightarrow> real \<times> real \<Rightarrow> real \<times> real \<Rightarrow> real \<times> real \<Rightarrow> real \<Rightarrow> bool" where
  "pointNearSegment r p a b threshold =
     (if pointDistance r a b = 0 then pointDistance r p a \<le> threshold
      else if scalarProjection r p a b < 0 then pointDistance r p a \<le> threshold
      else if scalarProjection r p a b > 1 then pointDistance r p b \<le> threshold
      else pointDistance r p (projectionPoint r a b (scalarProjection r p a b)) \<le> threshold)"

section \<open>Field editor\<close>

text \<open>
  The \<^verbatim>\<open>LacrosseField\<close> component keeps the element list twice, as \<^verbatim>\<open>elements\<close> and as
  \<^verbatim>\<open>history.present\<close>, and updates both in every operation.  An event handler is a
  function from the state at the event to the state after it (the state variables carry
  the prefix \<open>fs_\<close>); its functional updates
  compose in the order they are issued.  What the handlers read from the outside is a
  parameter: the pointer position, the id that \<^verbatim>\<open>generateId\<close> returns and the answer
  to the text prompt.
\<close>

record FieldState =
  fs_elements :: "CanvasElement list"
  fs_history :: HistoryState
  fs_selectedTool :: string
  fs_customPosition :: string
  fs_isDrawing :: bool
  fs_startPoint :: "(real \<times> real) option"
  fs_dragging :: "(string \<times> real \<times> real) option"
  fs_selectedElementId :: "string option"
  fs_isAnimating :: bool
  fs_animationProgress :: real

definition fieldAddElement :: "CanvasElement \<Rightarrow> FieldState \<Rightarrow> FieldState" where
  "fieldAddElement element st =
     st\<lparr> fs_history := \<lparr> past = past (fs_history st) @ [present (fs_history st)],
                       present = present (fs_history st) @ [element],
                       future = [] \<rparr>,
         fs_elements := fs_elements st @ [element] \<rparr>"

definition fieldUpdateElement :: "string \<Rightarrow> Changes \<Rightarrow> FieldState \<Rightarrow> FieldState" where
  "fieldUpdateElement i changes st =
     st\<lparr> fs_history := \<lparr> past = past (fs_history st) @ [present (fs_history st)],
                       present = map (\<lambda>el. if el_id el = i then spread el changes else el)
                                   (present (fs_history st)),
                       future = [] \<rparr>,
         fs_elements := map (\<lambda>el. if el_id el = i then spread el changes else el) (fs_elements st) \<rparr>"

definition fieldRemoveElement :: "string \<Rightarrow> FieldState \<Rightarrow> FieldState" where
  "fieldRemoveElement i st =
     st\<lparr> fs_history := \<lparr> past = past (fs_history st) @ [present (fs_history st)],
                       present = filter (\<lambda>el. el_id el \<noteq> i) (present (fs_history st)),
                       future = [] \<rparr>,
         fs_elements := filter (\<lambda>el. el_id el \<noteq> i) (fs_elements st) \<rparr>"

definition fieldUndo :: "FieldState \<Rightarrow> FieldState" where
  "fieldUndo st =
     (let prev = fs_history st in
      if length (past prev) = 0 then st
      else
        let newPast = butlast (past prev);
            newPresent = (case rev (past prev) of [] \<Rightarrow> [] | popped # _ \<Rightarrow> popped)
        in st\<lparr> fs_elements := newPresent,
               fs_history := \<lparr> past = newPast, present = newPresent,
                             future = present prev # future prev \<rparr> \<rparr>)"

definition fieldRedo :: "FieldState \<Rightarrow> FieldState" where
  "fieldRedo st =
     (let prev = fs_history st in
      if length (future prev) = 0 then st
      else
        let newFuture = tl (future prev);
            newPresent = (case future prev of [] \<Rightarrow> [] | shifted # _ \<Rightarrow> shifted)
        in st\<lparr> fs_elements := newPresent,
               fs_history := \<lparr> past = past prev @ [present prev], present = newPresent,
                             future = newFuture \<rparr> \<rparr>)"

text \<open>
  The hit test.  The arrow branch does not go through \<^verbatim>\<open>isPointNearLine\<close>: it has its
  own copy of the projection, with the threshold 10, and answers \<^verbatim>\<open>false\<close> for a
  degenerate arrow and for a projection outside the segment.  With fewer than four
  numbers in \<^verbatim>\<open>points\<close> the destructured values are \<^verbatim>\<open>undefined\<close>, every comparison on
  them is false and so is the result.
\<close>

definition isPointInElement :: "real \<Rightarrow> real \<Rightarrow> CanvasElement \<Rightarrow> bool" where
  "isPointInElement x y element =
     (if el_type element = ''player'' \<or> el_type element = ''ball'' then
        let radius = (if el_type element = ''player'' then 15 else 8)
        in fsqrt (fadd (fpow2 (fsub x (el_x element))) (fpow2 (fsub y (el_y element))))
             \<le> radius
      else if el_type element = ''text'' then
        x \<ge> el_x element \<and> x \<le> fadd (el_x element) 80 \<and>
        y \<ge> fsub (el_y element) 10 \<and> y \<le> fadd (el_y element) 10
      else if isArrowType (el_type element) \<and> el_points element \<noteq> None then
        (case el_points element of
           Some (x1 # y1 # x2 # y2 # _) \<Rightarrow>
             let lineLength = fsqrt (fadd (fpow2 (fsub x2 x1)) (fpow2 (fsub y2 y1))) in
             if lineLength = 0 then False
             else
               let t = fdiv (fadd (fmul (fsub x x1) (fsub x2 x1))
                                   (fmul (fsub y y1) (fsub y2 y1)))
                             (fmul lineLength lineLength) in
               if t < 0 then False
               else if t > 1 then False
               else
                 let projX = fadd x1 (fmul t (fsub x2 x1));
                     projY = fadd y1 (fmul t (fsub y2 y1));
                     distance = fsqrt (fadd (fpow2 (fsub x projX)) (fpow2 (fsub y projY)))
                 in distance \<le> 10
         | _ \<Rightarrow> False)
      else False)"

definition handleMouseDown ::
  "int \<Rightarrow> real \<times> real \<Rightarrow> string \<Rightarrow> string option \<Rightarrow> FieldState \<Rightarrow> FieldState" where
  "handleMouseDown button pos generatedId prompted st =
     (if button \<noteq> 0 then st
      else if fs_selectedTool st = ''select'' then
        (case List.find (\<lambda>el. isPointInElement (fst pos) (snd pos) el) (rev (fs_elements st)) of
           Some clickedElement \<Rightarrow>
             st\<lparr> fs_selectedElementId := Some (el_id clickedElement),
                 fs_dragging := Some (el_id clickedElement,
                                   fsub (fst pos) (el_x clickedElement),
                                   fsub (snd pos) (el_y clickedElement)) \<rparr>
         | None \<Rightarrow> st\<lparr> fs_selectedElementId := None \<rparr>)
      else if fs_selectedTool st = ''eraser'' then
        (case List.find (\<lambda>el. isPointInElement (fst pos) (snd pos) el) (fs_elements st) of
           Some elementToErase \<Rightarrow> fieldRemoveElement (el_id elementToErase) st
         | None \<Rightarrow> st)
      else if isArrowType (fs_selectedTool st) then
        st\<lparr> fs_isDrawing := True, fs_startPoint := Some pos \<rparr>
      else if fs_selectedTool st = ''player'' then
        fieldAddElement
          \<lparr> el_id = generatedId, el_type = ''player'', el_x = fst pos, el_y = snd pos,
            el_points = None,
            el_position = Some (if fs_customPosition st = [] then ''X'' else fs_customPosition st),
            el_team = Some ''blue'', el_text = None \<rparr> st
      else if fs_selectedTool st = ''ball'' then
        fieldAddElement
          \<lparr> el_id = generatedId, el_type = ''ball'', el_x = fst pos, el_y = snd pos,
            el_points = None, el_position = None, el_team = None, el_text = None \<rparr> st
      else if fs_selectedTool st = ''text'' then
        (case prompted of
           None \<Rightarrow> st
         | Some txt \<Rightarrow>
             if txt = [] then st
             else fieldAddElement
               \<lparr> el_id = generatedId, el_type = ''text'', el_x = fst pos, el_y = snd pos,
                 el_points = None, el_position = None, el_team = None, el_text = Some txt \<rparr> st)
      else st)"

definition handleMouseMove :: "real \<times> real \<Rightarrow> FieldState \<Rightarrow> FieldState" where
  "handleMouseMove pos st =
     (case fs_dragging st of
        Some (i, offsetX, offsetY) \<Rightarrow>
          fieldUpdateElement i
            \<lparr> ch_id = None, ch_type = None,
              ch_x = Some (fsub (fst pos) offsetX), ch_y = Some (fsub (snd pos) offsetY),
              ch_points = None, ch_position = None, ch_team = None, ch_text = None \<rparr> st
      | None \<Rightarrow>
          (case fs_startPoint st of
             Some sp \<Rightarrow>
               if fs_isDrawing st then
                 let tempElement = List.find (\<lambda>el. el_id el = ''tempArrow'') (fs_elements st) in
                 if tempElement \<noteq> None then
                   fieldUpdateElement ''tempArrow''
                     \<lparr> ch_id = Some ''tempArrow'', ch_type = Some (fs_selectedTool st),
                       ch_x = Some (fst sp), ch_y = Some (snd sp),
                       ch_points = Some [fst sp, snd sp, fst pos, snd pos],
                       ch_position = None, ch_team = None, ch_text = None \<rparr> st
                 else
                   fieldAddElement
                     \<lparr> el_id = ''tempArrow'', el_type = fs_selectedTool st,
                       el_x = fst sp, el_y = snd sp,
                       el_points = Some [fst sp, snd sp, fst pos, snd pos],
                       el_position = None, el_team = None, el_text = None \<rparr> st
               else st
           | None \<Rightarrow> st))"

definition handleMouseUp :: "real \<times> real \<Rightarrow> string \<Rightarrow> FieldState \<Rightarrow> FieldState" where
  "handleMouseUp pos generatedId st =
     (let st1 =
        (case fs_startPoint st of
           Some sp \<Rightarrow>
             if fs_isDrawing st then
               let removed = fieldRemoveElement ''tempArrow'' st;
                   added =
                     (if \<bar>fsub (fst sp) (fst pos)\<bar> > 5 \<or> \<bar>fsub (snd sp) (snd pos)\<bar> > 5 then
                        fieldAddElement
                          \<lparr> el_id = generatedId, el_type = fs_selectedTool st,
                            el_x = fst sp, el_y = snd sp,
                            el_points = Some [fst sp, snd sp, fst pos, snd pos],
                            el_position = None, el_team = None, el_text = None \<rparr> removed
                      else removed)
               in added\<lparr> fs_isDrawing := False, fs_startPoint := None \<rparr>
             else st
         | None \<Rightarrow> st)
      in st1\<lparr> fs_dragging := None \<rparr>)"

text \<open>The interpolator of this component reads the progress from the state.\<close>

definition fieldGetAnimatedElements :: "FieldState \<Rightarrow> CanvasElement list" where
  "fieldGetAnimatedElements st =
     (if \<not> fs_isAnimating st then fs_elements st
      else getAnimatedElements (fs_elements st) (fs_animationProgress st))"

section \<open>Page editor\<close>

text \<open>
  The \<^verbatim>\<open>LacrossePage\<close> component keeps players, arrows and balls in three lists of their
  own (fields prefixed \<open>pl_\<close>, \<open>ar_\<close> and \<open>bl_\<close>) and draws no preview.  Its pointer-up
  handler is the second place where an arrow gesture ends.  \<^verbatim>\<open>addToHistory\<close> stores the
  lists of the render in which the handler was created, which is the state at the event.
\<close>

record PagePlayer =
  pl_id :: string
  pl_x :: real
  pl_y :: real
  pl_position :: string
  pl_team :: string

record PageArrow =
  ar_id :: string
  ar_type :: string
  ar_startX :: real
  ar_startY :: real
  ar_endX :: real
  ar_endY :: real

record PageBall =
  bl_id :: string
  bl_x :: real
  bl_y :: real

record PlayData =
  pd_players :: "PagePlayer list"
  pd_arrows :: "PageArrow list"
  pd_balls :: "PageBall list"
  pd_name :: string

record PageHistory =
  ph_past :: "PlayData list"
  ph_current :: PlayData
  ph_future :: "PlayData list"

record PageState =
  pg_players :: "PagePlayer list"
  pg_arrows :: "PageArrow list"
  pg_balls :: "PageBall list"
  pg_playName :: string
  pg_selectedTool :: string
  pg_isDrawing :: bool
  pg_startPoint :: "(real \<times> real) option"
  pg_selectedElement :: "(string \<times> string) option"
  pg_history :: PageHistory

definition addToHistory :: "PageState \<Rightarrow> PageState \<Rightarrow> PageState" where
  "addToHistory rendered st =
     st\<lparr> pg_history :=
          \<lparr> ph_past = ph_past (pg_history st) @ [ph_current (pg_history st)],
            ph_current = \<lparr> pd_players = pg_players rendered, pd_arrows = pg_arrows rendered,
                           pd_balls = pg_balls rendered, pd_name = pg_playName rendered \<rparr>,
            ph_future = [] \<rparr> \<rparr>"

definition pageHandleMouseUp :: "real \<times> real \<Rightarrow> string \<Rightarrow> PageState \<Rightarrow> PageState" where
  "pageHandleMouseUp pos generatedId st =
     (let st1 =
        (case pg_startPoint st of
           Some sp \<Rightarrow>
             if pg_isDrawing st \<and> pg_selectedTool st \<in> set [''move'', ''pass'', ''shoot''] then
               if \<bar>fsub (fst sp) (fst pos)\<bar> > 5 \<or> \<bar>fsub (snd sp) (snd pos)\<bar> > 5 then
                 let newArrow =
                       \<lparr> ar_id = generatedId, ar_type = pg_selectedTool st,
                         ar_startX = fst sp, ar_startY = snd sp,
                         ar_endX = fst pos, ar_endY = snd pos \<rparr>;
                     st' = addToHistory st st
                 in st'\<lparr> pg_arrows := pg_arrows st' @ [newArrow] \<rparr>
               else st
             else st
         | None \<Rightarrow> st);
          st2 = st1\<lparr> pg_isDrawing := False, pg_startPoint := None \<rparr>
      in if pg_selectedTool st = ''select'' \<and> pg_selectedElement st \<noteq> None
         then addToHistory st st2 else st2)"

section \<open>Server: schema, storage and the create-play route\<close>

text \<open>
  A request body and the \<^verbatim>\<open>canvas\<close> column are JSON values; an object is the list of its
  properties.  A \<^verbatim>\<open>Date\<close> is its time in milliseconds.
\<close>

datatype json =
  JNull
  | JBool bool
  | JNum real
  | JStr string
  | JArr "json list"
  | JObj "(string \<times> json) list"

text \<open>What a handler can catch: the error of a failed \<^verbatim>\<open>parse\<close>, or anything else.\<close>

datatype thrown = ZodError | OtherError

text \<open>
  \<^verbatim>\<open>canvasElementSchema\<close>: a \<^verbatim>\<open>z.object\<close> with four required and four optional
  properties; an optional property is either absent or of its type; unknown properties
  are ignored.
\<close>

definition optionalField :: "(json \<Rightarrow> bool) \<Rightarrow> json option \<Rightarrow> bool" where
  "optionalField ok v = (case v of None \<Rightarrow> True | Some j \<Rightarrow> ok j)"

definition isString :: "json \<Rightarrow> bool" where
  "isString j = (case j of JStr _ \<Rightarrow> True | _ \<Rightarrow> False)"

definition isNumber :: "json \<Rightarrow> bool" where
  "isNumber j = (case j of JNum _ \<Rightarrow> True | _ \<Rightarrow> False)"

definition isEnum :: "string list \<Rightarrow> json \<Rightarrow> bool" where
  "isEnum allowed j = (case j of JStr s \<Rightarrow> s \<in> set allowed | _ \<Rightarrow> False)"

definition isNumberArray :: "json \<Rightarrow> bool" where
  "isNumberArray j = (case j of JArr js \<Rightarrow> list_all isNumber js | _ \<Rightarrow> False)"

definition canvasElementSchema :: "json \<Rightarrow> bool" where
  "canvasElementSchema j =
     (case j of
        JObj props \<Rightarrow>
          (case map_of props ''id'' of Some v \<Rightarrow> isString v | None \<Rightarrow> False) \<and>
          (case map_of props ''type'' of
             Some v \<Rightarrow> isEnum [''player'', ''ball'', ''moveArrow'', ''passArrow'',
                                 ''shootArrow'', ''text''] v
           | None \<Rightarrow> False) \<and>
          (case map_of props ''x'' of Some v \<Rightarrow> isNumber v | None \<Rightarrow> False) \<and>
          (case map_of props ''y'' of Some v \<Rightarrow> isNumber v | None \<Rightarrow> False) \<and>
          optionalField isNumberArray (map_of props ''points'') \<and>
          optionalField isString (map_of props ''position'') \<and>
          optionalField (isEnum [''blue'', ''red'']) (map_of props ''team'') \<and>
          optionalField isString (map_of props ''text'')
      | _ \<Rightarrow> False)"

text \<open>\<^verbatim>\<open>z.array(canvasElementSchema).parse(canvas)\<close>: the value, or the error thrown.\<close>

definition parseCanvas :: "json \<Rightarrow> thrown + json" where
  "parseCanvas canvas =
     (case canvas of
        JArr els \<Rightarrow> if list_all canvasElementSchema els then Inr canvas else Inl ZodError
      | _ \<Rightarrow> Inl ZodError)"

record User =
  user_id :: real
  user_username :: string
  user_password :: string

record Folder =
  folder_id :: real
  folder_name :: string
  folder_userId :: real
  folder_createdAt :: int

record Play =
  play_id :: real
  play_name :: string
  play_folderId :: real
  play_userId :: real
  play_canvas :: json
  play_createdAt :: int
  play_updatedAt :: int

record InsertUser =
  iu_username :: string
  iu_password :: string

record InsertFolder =
  if_name :: string
  if_userId :: real

record InsertPlay =
  ip_name :: string
  ip_folderId :: real
  ip_userId :: real
  ip_canvas :: json

text \<open>
  The second argument of \<^verbatim>\<open>updatePlay\<close>.  Its type is \<^verbatim>\<open>Partial<InsertPlay>\<close>, which an
  object with further properties satisfies (a whole \<^verbatim>\<open>Play\<close> does), and the route hands
  in the request body as it came.  The method spreads whatever is there over the stored
  play, so each property of a play may be present, \<^verbatim>\<open>id\<close> included.
\<close>

record PlayUpdate =
  pu_id :: "real option"
  pu_name :: "string option"
  pu_folderId :: "real option"
  pu_userId :: "real option"
  pu_canvas :: "json option"
  pu_createdAt :: "int option"
  pu_updatedAt :: "int option"

subsection \<open>The in-memory storage\<close>

text \<open>
  A JavaScript \<^verbatim>\<open>Map\<close> iterates in insertion order: an association list with one entry
  per key.  \<^verbatim>\<open>set\<close> replaces the value of a key in place or appends a new entry.
\<close>

fun mapSet :: "'k \<Rightarrow> 'v \<Rightarrow> ('k \<times> 'v) list \<Rightarrow> ('k \<times> 'v) list" where
  "mapSet k v [] = [(k, v)]"
| "mapSet k v ((k', v') # m) = (if k' = k then (k, v) # m else (k', v') # mapSet k v m)"

definition mapDelete :: "'k \<Rightarrow> ('k \<times> 'v) list \<Rightarrow> ('k \<times> 'v) list" where
  "mapDelete k m = filter (\<lambda>(k', _). k' \<noteq> k) m"

definition mapValues :: "('k \<times> 'v) list \<Rightarrow> 'v list" where
  "mapValues m = map snd m"

record MemStorage =
  ms_users :: "(real \<times> User) list"
  ms_folders :: "(real \<times> Folder) list"
  ms_plays :: "(real \<times> Play) list"
  currentUserId :: real
  currentFolderId :: real
  currentPlayId :: real

definition createUser :: "InsertUser \<Rightarrow> MemStorage \<Rightarrow> User \<times> MemStorage" where
  "createUser insertUser s =
     (let i = currentUserId s;
          user = \<lparr> user_id = i, user_username = iu_username insertUser,
                   user_password = iu_password insertUser \<rparr>
      in (user, s\<lparr> currentUserId := fadd i 1, ms_users := mapSet i user (ms_users s) \<rparr>))"

definition createFolder :: "int \<Rightarrow> InsertFolder \<Rightarrow> MemStorage \<Rightarrow> Folder \<times> MemStorage" where
  "createFolder now insertFolder s =
     (let i = currentFolderId s;
          folder = \<lparr> folder_id = i, folder_name = if_name insertFolder,
                     folder_userId = if_userId insertFolder, folder_createdAt = now \<rparr>
      in (folder, s\<lparr> currentFolderId := fadd i 1, ms_folders := mapSet i folder (ms_folders s) \<rparr>))"

text \<open>The constructor: empty maps, counters at 1, the demo user and its three folders.\<close>

definition newMemStorage :: "int \<Rightarrow> MemStorage" where
  "newMemStorage now =
     (let s0 = \<lparr> ms_users = [], ms_folders = [], ms_plays = [],
                 currentUserId = 1, currentFolderId = 1, currentPlayId = 1 \<rparr>;
          s1 = snd (createUser \<lparr> iu_username = ''demo'', iu_password = ''password'' \<rparr> s0);
          s2 = snd (createFolder now \<lparr> if_name = ''Offense Plays'', if_userId = 1 \<rparr> s1);
          s3 = snd (createFolder now \<lparr> if_name = ''Defense Plays'', if_userId = 1 \<rparr> s2)
      in snd (createFolder now \<lparr> if_name = ''Face-off Strategies'', if_userId = 1 \<rparr> s3))"

definition getFolder :: "real \<Rightarrow> MemStorage \<Rightarrow> Folder option" where
  "getFolder i s = map_of (ms_folders s) i"

text \<open>
  \<^verbatim>\<open>deleteFolder\<close>: the plays of the folder are collected first, then deleted one by one
  under their own \<^verbatim>\<open>id\<close>; the result is whether the folder existed.
\<close>

definition deleteFolder :: "real \<Rightarrow> MemStorage \<Rightarrow> bool \<times> MemStorage" where
  "deleteFolder i s =
     (let playsInFolder = filter (\<lambda>play. play_folderId play = i) (mapValues (ms_plays s));
          s1 = foldl (\<lambda>s' play. s'\<lparr> ms_plays := mapDelete (play_id play) (ms_plays s') \<rparr>)
                 s playsInFolder
      in (map_of (ms_folders s1) i \<noteq> None,
          s1\<lparr> ms_folders := mapDelete i (ms_folders s1) \<rparr>))"

text \<open>The comparator \<^verbatim>\<open>b.updatedAt - a.updatedAt\<close> with the stable sort of the language.\<close>

definition getPlays :: "real \<Rightarrow> MemStorage \<Rightarrow> Play list" where
  "getPlays folderId s =
     sort_key (\<lambda>play. - play_updatedAt play)
       (filter (\<lambda>play. play_folderId play = folderId) (mapValues (ms_plays s)))"

definition getPlay :: "real \<Rightarrow> MemStorage \<Rightarrow> Play option" where
  "getPlay i s = map_of (ms_plays s) i"

text \<open>
  \<^verbatim>\<open>createPlay\<close> takes the next id before it validates the canvas, so a rejected play
  still advances the counter.
\<close>

definition createPlay :: "int \<Rightarrow> InsertPlay \<Rightarrow> MemStorage \<Rightarrow> (thrown + Play) \<times> MemStorage" where
  "createPlay now insertPlay s =
     (let i = currentPlayId s;
          s1 = s\<lparr> currentPlayId := fadd i 1 \<rparr>
      in case parseCanvas (ip_canvas insertPlay) of
           Inl err \<Rightarrow> (Inl err, s1)
         | Inr canvasArray \<Rightarrow>
             let play = \<lparr> play_id = i, play_name = ip_name insertPlay,
                          play_folderId = ip_folderId insertPlay,
                          play_userId = ip_userId insertPlay,
                          play_canvas = ip_canvas insertPlay,
                          play_createdAt = now, play_updatedAt = now \<rparr>
             in (Inr play, s1\<lparr> ms_plays := mapSet i play (ms_plays s1) \<rparr>))"

text \<open>The truthiness of a JSON value, for \<^verbatim>\<open>if (playUpdate.canvas)\<close>.\<close>

definition truthy :: "json \<Rightarrow> bool" where
  "truthy j =
     (case j of JNull \<Rightarrow> False | JBool b \<Rightarrow> b | JNum n \<Rightarrow> n \<noteq> 0 | JStr s \<Rightarrow> s \<noteq> []
      | _ \<Rightarrow> True)"

definition validateUpdate :: "PlayUpdate \<Rightarrow> thrown option" where
  "validateUpdate playUpdate =
     (case pu_canvas playUpdate of
        None \<Rightarrow> None
      | Some canvas \<Rightarrow>
          if truthy canvas
          then (case parseCanvas canvas of Inl err \<Rightarrow> Some err | Inr _ \<Rightarrow> None)
          else None)"

text \<open>
  \<^verbatim>\<open>{ ...play, ...playUpdate, updatedAt: new Date() }\<close>, stored under the key the play was
  found at.
\<close>

definition updatePlay ::
  "int \<Rightarrow> real \<Rightarrow> PlayUpdate \<Rightarrow> MemStorage \<Rightarrow> (thrown + Play option) \<times> MemStorage" where
  "updatePlay now i playUpdate s =
     (case map_of (ms_plays s) i of
        None \<Rightarrow> (Inr None, s)
      | Some play \<Rightarrow>
          (case validateUpdate playUpdate of
             Some err \<Rightarrow> (Inl err, s)
           | None \<Rightarrow>
               let updatedPlay =
                     \<lparr> play_id = (case pu_id playUpdate of None \<Rightarrow> play_id play | Some v \<Rightarrow> v),
                       play_name = (case pu_name playUpdate of None \<Rightarrow> play_name play | Some v \<Rightarrow> v),
                       play_folderId =
                         (case pu_folderId playUpdate of None \<Rightarrow> play_folderId play | Some v \<Rightarrow> v),
                       play_userId =
                         (case pu_userId playUpdate of None \<Rightarrow> play_userId play | Some v \<Rightarrow> v),
                       play_canvas =
                         (case pu_canvas playUpdate of None \<Rightarrow> play_canvas play | Some v \<Rightarrow> v),
                       play_createdAt =
                         (case pu_createdAt playUpdate of
                            None \<Rightarrow> play_createdAt play | Some v \<Rightarrow> v),
                       play_updatedAt = now \<rparr>
               in (Inr (Some updatedPlay),
                   s\<lparr> ms_plays := mapSet i updatedPlay (ms_plays s) \<rparr>)))"

definition deletePlay :: "real \<Rightarrow> MemStorage \<Rightarrow> bool \<times> MemStorage" where
  "deletePlay i s =
     (map_of (ms_plays s) i \<noteq> None, s\<lparr> ms_plays := mapDelete i (ms_plays s) \<rparr>)"

text \<open>
  The property that in every entry of the play map the key is the play's own id.
  \<^verbatim>\<open>createPlay\<close> establishes it for the entry it adds; \<^verbatim>\<open>updatePlay\<close> keeps it only
  when the update leaves \<^verbatim>\<open>id\<close> alone.
\<close>

definition keysMatch :: "MemStorage \<Rightarrow> bool" where
  "keysMatch s =
     (distinct (map fst (ms_plays s)) \<and> list_all (\<lambda>(k, play). play_id play = k) (ms_plays s))"

text \<open>
  The states the storage can be in: the constructor's, and any reached by its methods or
  by an assignment to one of its three public counters.
\<close>

inductive reachable :: "MemStorage \<Rightarrow> bool" where
  constructed: "reachable (newMemStorage now)"
| createdUser: "reachable s \<Longrightarrow> reachable (snd (createUser insertUser s))"
| createdFolder: "reachable s \<Longrightarrow> reachable (snd (createFolder now insertFolder s))"
| deletedFolder: "reachable s \<Longrightarrow> reachable (snd (deleteFolder i s))"
| createdPlay: "reachable s \<Longrightarrow> reachable (snd (createPlay now insertPlay s))"
| updatedPlay: "reachable s \<Longrightarrow> reachable (snd (updatePlay now i playUpdate s))"
| deletedPlay: "reachable s \<Longrightarrow> reachable (snd (deletePlay i s))"
| counters: "reachable s \<Longrightarrow>
     reachable (s\<lparr> currentUserId := u, currentFolderId := f, currentPlayId := p \<rparr>)"

subsection \<open>The database storage and the route\<close>

text \<open>
  \<^verbatim>\<open>DatabaseStorage.createPlay\<close> inserts the row and returns it with the id of the serial
  column and the two default timestamps.  The table is the list of its rows.  The method
  does not look at the canvas; the column is \<^verbatim>\<open>notNull\<close>, so the database refuses a
  \<^verbatim>\<open>null\<close> canvas and the insert throws, after the sequence has given out the id.  Other
  failures of the database are outside the model.
\<close>

record Database =
  db_plays :: "Play list"
  db_playsSerial :: real

definition dbCreatePlay :: "int \<Rightarrow> InsertPlay \<Rightarrow> Database \<Rightarrow> (thrown + Play) \<times> Database" where
  "dbCreatePlay now insertPlay db =
     (let play = \<lparr> play_id = db_playsSerial db, play_name = ip_name insertPlay,
                    play_folderId = ip_folderId insertPlay,
                    play_userId = ip_userId insertPlay,
                    play_canvas = ip_canvas insertPlay,
                    play_createdAt = now, play_updatedAt = now \<rparr>;
          db1 = db\<lparr> db_playsSerial := db_playsSerial db + 1 \<rparr>
      in if ip_canvas insertPlay = JNull then (Inl OtherError, db1)
         else (Inr play, db1\<lparr> db_plays := db_plays db1 @ [play] \<rparr>))"

text \<open>
  \<^verbatim>\<open>insertPlaySchema\<close> is generated from the table: \<^verbatim>\<open>name\<close> is a text column (a
  string), \<^verbatim>\<open>folderId\<close> and \<^verbatim>\<open>userId\<close> are integer columns (a number that is an
  integer) and \<^verbatim>\<open>canvas\<close> is a \<^verbatim>\<open>jsonb\<close> column, for which the generated schema
  accepts any JSON value that is present.  All four are required.
\<close>

definition insertPlaySchema :: "(string \<times> json) list \<Rightarrow> thrown + InsertPlay" where
  "insertPlaySchema props =
     (case (map_of props ''name'', map_of props ''folderId'', map_of props ''userId'',
            map_of props ''canvas'') of
        (Some (JStr n), Some (JNum f), Some (JNum u), Some canvas) \<Rightarrow>
          if isInteger f \<and> isInteger u
          then Inr \<lparr> ip_name = n, ip_folderId = f, ip_userId = u, ip_canvas = canvas \<rparr>
          else Inl ZodError
      | _ \<Rightarrow> Inl ZodError)"

text \<open>The properties that \<^verbatim>\<open>...req.body\<close> spreads; only those of an object matter here.\<close>

definition bodyProps :: "json \<Rightarrow> (string \<times> json) list" where
  "bodyProps body = (case body of JObj props \<Rightarrow> props | _ \<Rightarrow> [])"

datatype payload = PlayJson Play | ValidationMessage | Message string

record Response =
  res_status :: nat
  res_body :: payload

text \<open>The \<^verbatim>\<open>catch\<close> block of the handler.\<close>

definition caught :: "thrown \<Rightarrow> Response" where
  "caught err =
     (if err = ZodError then \<lparr> res_status = 400, res_body = ValidationMessage \<rparr>
      else \<lparr> res_status = 500, res_body = Message ''Failed to create play'' \<rparr>)"

text \<open>
  The handler of \<^verbatim>\<open>POST /api/plays\<close>, over the storage it is given.  The spread puts
  \<^verbatim>\<open>userId: 1\<close> over whatever the body says.
\<close>

definition postPlays ::
  "(int \<Rightarrow> InsertPlay \<Rightarrow> 's \<Rightarrow> (thrown + Play) \<times> 's) \<Rightarrow> int \<Rightarrow> json \<Rightarrow> 's \<Rightarrow> Response \<times> 's" where
  "postPlays storageCreatePlay now body s =
     (case insertPlaySchema ((''userId'', JNum 1) # bodyProps body) of
        Inl err \<Rightarrow> (caught err, s)
      | Inr parsed \<Rightarrow>
          (case storageCreatePlay now parsed s of
             (Inl err, s') \<Rightarrow> (caught err, s')
           | (Inr play, s') \<Rightarrow> (\<lparr> res_status = 201, res_body = PlayJson play \<rparr>, s')))"

text \<open>\<^verbatim>\<open>export const storage = new DatabaseStorage()\<close>: the storage the routes use.\<close>

definition apiPostPlays :: "int \<Rightarrow> json \<Rightarrow> Database \<Rightarrow> Response \<times> Database" where
  "apiPostPlays = postPlays dbCreatePlay"

section \<open>Concrete inputs\<close>

text \<open>Concrete elements used in the examples below.\<close>

definition mkPlayer :: "string \<Rightarrow> real \<Rightarrow> real \<Rightarrow> CanvasElement" where
  "mkPlayer i px py =
     \<lparr> el_id = i, el_type = ''player'', el_x = px, el_y = py, el_points = None,
       el_position = Some ''A'', el_team = Some ''blue'', el_text = None \<rparr>"

definition mkArrow :: "string \<Rightarrow> string \<Rightarrow> real \<Rightarrow> real \<Rightarrow> real \<Rightarrow> real \<Rightarrow> CanvasElement" where
  "mkArrow i t x1 y1 x2 y2 =
     \<lparr> el_id = i, el_type = t, el_x = x1, el_y = y1, el_points = Some [x1, y1, x2, y2],
       el_position = None, el_team = None, el_text = None \<rparr>"

definition emptyHistory :: HistoryState where
  "emptyHistory = \<lparr> past = [], present = [], future = [] \<rparr>"

definition c2_single :: "CanvasElement list" where
  "c2_single = [mkPlayer ''p1'' 105 100, mkArrow ''a1'' ''moveArrow'' 100 100 200 150]"

definition c2_double :: "CanvasElement list" where
  "c2_double = [mkPlayer ''p1'' 100 100, mkArrow ''a1'' ''moveArrow'' 100 100 200 150,
                mkArrow ''a2'' ''passArrow'' 110 110 300 300]"

text \<open>A player exactly 20 units from the start of the arrow.\<close>

definition c2_edge :: "CanvasElement list" where
  "c2_edge = [mkPlayer ''p1'' 120 100, mkArrow ''a1'' ''moveArrow'' 100 100 200 150]"

text \<open>Two players near the start of one arrow.\<close>

definition c2_second :: "CanvasElement list" where
  "c2_second = [mkPlayer ''p1'' 100 100, mkPlayer ''p2'' 105 100,
                mkArrow ''a1'' ''moveArrow'' 100 100 200 150]"

text \<open>
  The doubles that the literals \<^verbatim>\<open>0.1\<close> and \<^verbatim>\<open>13.8\<close> denote, and a player at the start of
  an arrow from \<^verbatim>\<open>(0.1, 0)\<close> to \<^verbatim>\<open>(13.8, 0)\<close>.
\<close>

definition d0_1 :: real where
  "d0_1 = 3602879701896397 / 36028797018963968"

definition d13_8 :: real where
  "d13_8 = 3884354678607053 / 281474976710656"

definition c2_inexact :: "CanvasElement list" where
  "c2_inexact = [mkPlayer ''p1'' d0_1 0, mkArrow ''a1'' ''moveArrow'' d0_1 0 d13_8 0]"

text \<open>
  The doubles that the literals \<^verbatim>\<open>0.7\<close> and \<^verbatim>\<open>20.7\<close> denote, less than 20 apart, and
  a player at the second with an arrow starting at the first.
\<close>

definition d0_7 :: real where
  "d0_7 = 3152519739159347 / 4503599627370496"

definition d20_7 :: real where
  "d20_7 = 5826532017910579 / 281474976710656"

definition c2_near :: "CanvasElement list" where
  "c2_near = [mkPlayer ''p1'' d20_7 0, mkArrow ''a1'' ''moveArrow'' d0_7 0 100 0]"

text \<open>A player at the start of an arrow that ends where a second arrow starts.\<close>

definition c2_relay :: "CanvasElement list" where
  "c2_relay = [mkPlayer ''p1'' 100 100, mkArrow ''a1'' ''moveArrow'' 100 100 200 150,
               mkArrow ''a2'' ''passArrow'' 200 150 300 300]"

text \<open>Two players and three arrows; the first arrow starts near the first player.\<close>

definition c2_chain :: "CanvasElement list" where
  "c2_chain = [mkPlayer ''p1'' 100 100, mkPlayer ''p2'' 110 100,
               mkArrow ''a0'' ''passArrow'' 110 100 300 300,
               mkArrow ''a1'' ''moveArrow'' 100 100 200 150,
               mkArrow ''a2'' ''shootArrow'' 500 500 600 600]"

definition c8_heap :: heap where
  "c8_heap = [mkPlayer ''p1'' 105 100, mkArrow ''a1'' ''moveArrow'' 100 100 200 150,
              mkPlayer ''p2'' 300 300]"


text \<open>An arrow gesture in the field editor: one player on the field, the move tool selected.\<close>

definition gesture_start :: FieldState where
  "gesture_start =
     \<lparr> fs_elements = [mkPlayer ''p1'' 50 50],
       fs_history = \<lparr> past = [], present = [mkPlayer ''p1'' 50 50], future = [] \<rparr>,
       fs_selectedTool = ''moveArrow'', fs_customPosition = ''X'', fs_isDrawing = False,
       fs_startPoint = None, fs_dragging = None, fs_selectedElementId = None,
       fs_isAnimating = False, fs_animationProgress = 0 \<rparr>"

definition gesture_moved :: "real \<times> real \<Rightarrow> FieldState" where
  "gesture_moved pos = handleMouseMove pos (handleMouseDown 0 (100, 100) ''g0'' None gesture_start)"

definition page_drawing :: PageState where
  "page_drawing =
     \<lparr> pg_players = [], pg_arrows = [], pg_balls = [], pg_playName = ''Untitled Play'',
       pg_selectedTool = ''move'', pg_isDrawing = True, pg_startPoint = Some (100, 100),
       pg_selectedElement = None,
       pg_history = \<lparr> ph_past = [],
                       ph_current = \<lparr> pd_players = [], pd_arrows = [], pd_balls = [],
                                      pd_name = ''Untitled Play'' \<rparr>,
                       ph_future = [] \<rparr> \<rparr>"


text \<open>A storage with one play in the first folder and one in the second.\<close>

definition stored :: MemStorage where
  "stored =
     snd (createPlay 20 \<lparr> ip_name = ''Clear'', ip_folderId = 2, ip_userId = 1, ip_canvas = JArr [] \<rparr>
       (snd (createPlay 10 \<lparr> ip_name = ''Fast break'', ip_folderId = 1, ip_userId = 1,
                             ip_canvas = JArr [] \<rparr>
          (newMemStorage 0))))"


text \<open>
  The same storage after an update of play 1 whose object carries an \<^verbatim>\<open>id\<close> property, as
  a play object read from another storage does.
\<close>

definition renumbered :: MemStorage where
  "renumbered =
     snd (updatePlay 30 1
       \<lparr> pu_id = Some 7, pu_name = None, pu_folderId = None, pu_userId = None,
         pu_canvas = None, pu_createdAt = None, pu_updatedAt = None \<rparr>
       stored)"


text \<open>A request whose only canvas element has no \<^verbatim>\<open>type\<close>, and an empty database.\<close>

definition untypedElement :: json where
  "untypedElement = JObj [(''id'', JStr ''e1''), (''x'', JNum 0), (''y'', JNum 0)]"

definition untypedRequest :: json where
  "untypedRequest =
     JObj [(''name'', JStr ''Fast break''), (''folderId'', JNum 1),
           (''canvas'', JArr [untypedElement])]"

definition emptyDatabase :: Database where
  "emptyDatabase = \<lparr> db_plays = [], db_playsSerial = 1 \<rparr>"

section \<open>Properties of the rounding\<close>

lemma rne_of_int [simp]: "rne (of_int k) = k"
  by (simp add: rne_def)

lemma rne_unique:
  assumes "\<bar>q - of_int m\<bar> < 1 / 2"
  shows "rne q = m"
proof -
  from assms have lo: "of_int m - 1 / 2 < q" and hi: "q < of_int m + 1 / 2" by linarith+
  show ?thesis
  proof (cases "of_int m \<le> q")
    case True
    with hi have "\<lfloor>q\<rfloor> = m" by (simp add: floor_eq_iff)
    with hi show ?thesis by (simp add: rne_def)
  next
    case False
    with lo have "\<lfloor>q\<rfloor> = m - 1" by (simp add: floor_eq_iff)
    with lo show ?thesis by (simp add: rne_def Let_def)
  qed
qed

lemma fl_0 [simp]: "fl 0 = 0"
  by (simp add: fl_def)

lemma floor_log2:
  assumes "2 powi e \<le> \<bar>x\<bar>" "\<bar>x\<bar> < 2 powi (e + 1)"
  shows "\<lfloor>log 2 \<bar>x\<bar>\<rfloor> = e"
proof -
  have pos: "0 < \<bar>x\<bar>" using assms(1) by (smt (verit) zero_less_power_int)
  have a: "(2::real) powr (of_int e) = 2 powi e" by (simp add: powr_real_of_int')
  have b: "(2::real) powr (of_int (e + 1)) = 2 powi (e + 1)"
    by (rule powr_real_of_int') simp_all
  from assms a b have "2 powr (of_int e) \<le> \<bar>x\<bar> \<and> \<bar>x\<bar> < 2 powr (of_int (e + 1))" by simp
  then show ?thesis using floor_log_eq_powr_iff [OF pos, of 2 e] by simp
qed

text \<open>Evaluation of a rounding: the binade of the argument and the nearest multiple.\<close>

lemma fl_eval:
  assumes "2 powi e \<le> \<bar>x\<bar>" "\<bar>x\<bar> < 2 powi (e + 1)" "- 1022 \<le> e"
    and "\<bar>x / 2 powi (e - 52) - of_int m\<bar> < 1 / 2"
  shows "fl x = of_int m * 2 powi (e - 52)"
proof -
  have "x \<noteq> 0" using assms(1) by (smt (verit) zero_less_power_int)
  moreover have "max \<lfloor>log 2 \<bar>x\<bar>\<rfloor> (- 1022) = e"
    using floor_log2 [OF assms(1,2)] assms(3) by simp
  ultimately show ?thesis
    using rne_unique [OF assms(4)] by (simp add: fl_def)
qed

lemma fl_exact:
  assumes "2 powi e \<le> \<bar>x\<bar>" "\<bar>x\<bar> < 2 powi (e + 1)" "- 1022 \<le> e"
    and "x / 2 powi (e - 52) = of_int m"
  shows "fl x = x"
proof -
  have "fl x = of_int m * 2 powi (e - 52)"
    by (rule fl_eval [OF assms(1-3)]) (simp add: assms(4))
  also have "\<dots> = x" using assms(4) [symmetric] by simp
  finally show ?thesis .
qed


lemma rne_ge_floor: "\<lfloor>q\<rfloor> \<le> rne q"
  by (simp add: rne_def Let_def)

lemma binade:
  assumes "x \<noteq> 0"
  shows "2 powi \<lfloor>log 2 \<bar>x\<bar>\<rfloor> \<le> \<bar>x\<bar> \<and> \<bar>x\<bar> < 2 powi (\<lfloor>log 2 \<bar>x\<bar>\<rfloor> + 1)"
proof -
  have pos: "0 < \<bar>x\<bar>" using assms by simp
  have a: "(2::real) powr (of_int k) = 2 powi k" for k
    by (rule powr_real_of_int') simp_all
  from floor_log_eq_powr_iff [OF pos, of 2 "\<lfloor>log 2 \<bar>x\<bar>\<rfloor>"]
  have "2 powr (of_int \<lfloor>log 2 \<bar>x\<bar>\<rfloor>) \<le> \<bar>x\<bar> \<and>
        \<bar>x\<bar> < 2 powr (of_int (\<lfloor>log 2 \<bar>x\<bar>\<rfloor> + 1))"
    by simp
  then show ?thesis unfolding a .
qed

lemma pow2_less_exp:
  assumes "(2::real) powi m < 2 powi n"
  shows "m < n"
proof (rule ccontr)
  assume "\<not> m < n"
  then have "(2::real) powi n \<le> 2 powi m"
    by (intro power_int_increasing) simp_all
  with assms show False by simp
qed

text \<open>Integers below \<open>2 ^ 53\<close> are doubles.\<close>

lemma fl_of_int:
  assumes "\<bar>n\<bar> < 2 ^ 53"
  shows "fl (of_int n) = of_int n"
proof (cases "n = 0")
  case True
  then show ?thesis by simp
next
  case False
  define x :: real where "x = of_int n"
  define e where "e = \<lfloor>log 2 \<bar>x\<bar>\<rfloor>"
  have x0: "x \<noteq> 0" using False by (simp add: x_def)
  from binade [OF x0] have lo: "2 powi e \<le> \<bar>x\<bar>" and hi: "\<bar>x\<bar> < 2 powi (e + 1)"
    by (simp_all add: e_def)
  have "1 \<le> \<bar>n\<bar>" using False by simp
  then have "(1::real) \<le> of_int \<bar>n\<bar>" by (simp only: of_int_1_le_iff)
  then have "1 \<le> \<bar>x\<bar>" by (simp add: x_def)
  with hi have "(2::real) powi 0 < 2 powi (e + 1)" by simp
  then have "0 < e + 1" by (rule pow2_less_exp)
  then have e0: "0 \<le> e" by simp
  have "(of_int \<bar>n\<bar> :: real) < of_int (2 ^ 53)" using assms by (simp only: of_int_less_iff)
  then have "\<bar>x\<bar> < 2 ^ 53" by (simp add: x_def)
  with lo have "(2::real) powi e < 2 powi 53" by simp
  then have "e < 53" by (rule pow2_less_exp)
  then have e52: "e \<le> 52" by simp
  have u: "(2::real) powi (e - 52) = 1 / 2 ^ nat (52 - e)"
    using e52 by (simp add: power_int_def field_simps)
  have "x / 2 powi (e - 52) = of_int (n * 2 ^ nat (52 - e))"
    by (simp add: u x_def)
  from fl_exact [OF lo hi _ this] e0 show ?thesis by (simp add: x_def)
qed

lemma fl_numeral [simp]: "numeral k < (2::int) ^ 53 \<Longrightarrow> fl (numeral k) = numeral k"
  using fl_of_int [of "numeral k"] by simp

lemma fl_neg_numeral [simp]: "numeral k < (2::int) ^ 53 \<Longrightarrow> fl (- numeral k) = - numeral k"
  using fl_of_int [of "- numeral k"] by simp

lemma fl_1 [simp]: "fl 1 = 1"
  using fl_of_int [of 1] by simp

lemma fl_Ints:
  assumes "x \<in> \<int>" "\<bar>x\<bar> < 2 ^ 53"
  shows "fl x = x"
proof -
  from assms(1) obtain n where x: "x = of_int n" by (rule Ints_cases)
  with assms(2) have "(of_int \<bar>n\<bar> :: real) < of_int (2 ^ 53)" by simp
  then have "\<bar>n\<bar> < 2 ^ 53" by (simp only: of_int_less_iff)
  then show ?thesis unfolding x by (rule fl_of_int)
qed

text \<open>Above the subnormal range a positive number rounds to a positive number.\<close>

lemma fl_pos:
  assumes "2 powi (- 1022) \<le> x"
  shows "0 < fl x"
proof -
  have xpos: "0 < x" using assms by (smt (verit) zero_less_power_int)
  define e where "e = \<lfloor>log 2 \<bar>x\<bar>\<rfloor>"
  from binade [of x] xpos have lo: "2 powi e \<le> x" and hi: "x < 2 powi (e + 1)"
    by (simp_all add: e_def)
  from assms hi have "(2::real) powi (- 1022) < 2 powi (e + 1)" by simp
  then have "- 1022 < e + 1" by (rule pow2_less_exp)
  then have e: "- 1022 \<le> e" by simp
  have upos: "(0::real) < 2 powi (e - 52)" by simp
  have "(2::real) powi e = 2 ^ 52 * 2 powi (e - 52)"
    by (simp add: power_int_diff)
  with lo have "2 ^ 52 \<le> x / 2 powi (e - 52)"
    using upos by (simp add: pos_le_divide_eq)
  moreover have "(1::real) \<le> 2 ^ 52" by simp
  ultimately have "(1::real) \<le> x / 2 powi (e - 52)" by (rule order_trans [rotated])
  then have "1 \<le> \<lfloor>x / 2 powi (e - 52)\<rfloor>"
    by (simp only: le_floor_iff of_int_1)
  with rne_ge_floor [of "x / 2 powi (e - 52)"] have "0 < rne (x / 2 powi (e - 52))"
    by linarith
  then have "0 < of_int (rne (x / 2 powi (e - 52))) * (2::real) powi (e - 52)"
    using upos by simp
  moreover have mx: "max e (- 1022) = e"
    using e by (rule max_absorb1)
  have "fl x = of_int (rne (x / 2 powi (e - 52))) * 2 powi (e - 52)"
    unfolding fl_def e_def [symmetric] mx Let_def using xpos by simp
  ultimately show ?thesis by simp
qed

section \<open>The concrete inputs evaluated\<close>

lemma gesture_moved_eval:
  "gesture_moved (px, py) =
     gesture_start
       \<lparr> fs_elements := [mkPlayer ''p1'' 50 50, mkArrow ''tempArrow'' ''moveArrow'' 100 100 px py],
         fs_history := \<lparr> past = [[mkPlayer ''p1'' 50 50]],
                          present = [mkPlayer ''p1'' 50 50,
                                     mkArrow ''tempArrow'' ''moveArrow'' 100 100 px py],
                          future = [] \<rparr>,
         fs_isDrawing := True, fs_startPoint := Some (100, 100) \<rparr>"
  by (simp add: gesture_moved_def gesture_start_def handleMouseDown_def handleMouseMove_def
      fieldAddElement_def isArrowType_def mkPlayer_def mkArrow_def Let_def)

section \<open>Properties of the history stack\<close>

lemma past_apply_push: "past (apply_push h p) = past h @ [present h]"
  by (cases p) (simp_all add: setElements_def addElement_def updateElement_def
      removeElement_def clearElements_def Let_def)

lemma future_apply_push: "future (apply_push h p) = []"
  by (cases p) (simp_all add: setElements_def addElement_def updateElement_def
      removeElement_def clearElements_def Let_def)

lemma length_past_pushes: "length (past (pushes h ops)) = length (past h) + length ops"
  unfolding pushes_def
  by (induction ops arbitrary: h) (simp_all add: past_apply_push)

lemma redo_undo:
  assumes "past h \<noteq> []"
  shows "redoAction (undoAction h) = h"
proof -
  obtain ps p where ps: "past h = ps @ [p]"
    using assms by (metis rev_exhaust)
  then show ?thesis
    by (simp add: undoAction_def redoAction_def Let_def)
qed

lemma length_past_undo: "length (past (undoAction h)) = length (past h) - 1"
  by (simp add: undoAction_def Let_def)

lemma redo_undo_funpow:
  "k \<le> length (past h) \<Longrightarrow> (redoAction ^^ k) ((undoAction ^^ k) h) = h"
proof (induction k arbitrary: h)
  case 0
  then show ?case by simp
next
  case (Suc k)
  from Suc.prems have ne: "past h \<noteq> []" by auto
  from Suc.prems have "k \<le> length (past (undoAction h))"
    by (simp add: length_past_undo)
  then have "(redoAction ^^ k) ((undoAction ^^ k) (undoAction h)) = undoAction h"
    by (rule Suc.IH)
  then show ?case
    using ne by (simp add: funpow_swap1 redo_undo)
qed

text \<open>The field editor applies the same two functions to its copy of the triple.\<close>

lemma fs_history_fieldUndo: "fs_history (fieldUndo st) = undoAction (fs_history st)"
  by (simp add: fieldUndo_def undoAction_def Let_def)

lemma fs_history_fieldRedo: "fs_history (fieldRedo st) = redoAction (fs_history st)"
  by (simp add: fieldRedo_def redoAction_def Let_def)

lemma fs_history_funpow_undo:
  "fs_history ((fieldUndo ^^ k) st) = (undoAction ^^ k) (fs_history st)"
  by (induction k) (simp_all add: fs_history_fieldUndo)

lemma fs_history_funpow_redo:
  "fs_history ((fieldRedo ^^ k) st) = (redoAction ^^ k) (fs_history st)"
  by (induction k) (simp_all add: fs_history_fieldRedo)

lemma field_redo_undo:
  "k \<le> length (past (fs_history st)) \<Longrightarrow>
   fs_history ((fieldRedo ^^ k) ((fieldUndo ^^ k) st)) = fs_history st"
  by (simp add: fs_history_funpow_redo fs_history_funpow_undo redo_undo_funpow)

lemma field_push_future:
  "future (fs_history (fieldAddElement e st)) = []"
  "future (fs_history (fieldUpdateElement i c st)) = []"
  "future (fs_history (fieldRemoveElement i st)) = []"
  by (simp_all add: fieldAddElement_def fieldUpdateElement_def fieldRemoveElement_def)

lemma field_noop:
  "past (fs_history st) = [] \<Longrightarrow> fieldUndo st = st"
  "future (fs_history st) = [] \<Longrightarrow> fieldRedo st = st"
  by (simp_all add: fieldUndo_def fieldRedo_def)

text \<open>
  Claim C1.  After any sequence of pushes, \<open>k\<close> undos followed by \<open>k\<close> redos give back the
  present collection held before the undos (indeed the whole triple), for every \<open>k\<close> up to
  the number of entries in \<open>past\<close>; that number is at least the number of pushes.  The
  same holds of the triple of the field editor in any state.
\<close>

theorem undo_redo_roundtrip:
  "length ops \<le> length (past (pushes h ops)) \<and>
   (k \<le> length (past (pushes h ops)) \<longrightarrow>
      present ((redoAction ^^ k) ((undoAction ^^ k) (pushes h ops))) = present (pushes h ops) \<and>
      (redoAction ^^ k) ((undoAction ^^ k) (pushes h ops)) = pushes h ops) \<and>
   (k \<le> length (past (fs_history st)) \<longrightarrow>
      fs_history ((fieldRedo ^^ k) ((fieldUndo ^^ k) st)) = fs_history st)"
  by (simp add: length_past_pushes redo_undo_funpow field_redo_undo)

theorem undo_redo_roundtrip_witness:
  "(2::nat) \<le> length (past (pushes emptyHistory
       [AddElement ''n1'' (mkPlayer [] 100 100), RemoveElement ''n1'', ClearElements])) \<and>
   present ((redoAction ^^ 2) ((undoAction ^^ 2) (pushes emptyHistory
       [AddElement ''n1'' (mkPlayer [] 100 100), RemoveElement ''n1'', ClearElements]))) = [] \<and>
   (1::nat) \<le> length (past (fs_history (gesture_moved (150, 150)))) \<and>
   fs_history ((fieldRedo ^^ 1) ((fieldUndo ^^ 1) (gesture_moved (150, 150)))) =
     fs_history (gesture_moved (150, 150))"
  using undo_redo_roundtrip [of "[AddElement ''n1'' (mkPlayer [] 100 100), RemoveElement ''n1'',
      ClearElements]" emptyHistory 2 "gesture_moved (150, 150)"]
    undo_redo_roundtrip [of "[]" emptyHistory 1 "gesture_moved (150, 150)"]
  by (simp add: pushes_def emptyHistory_def addElement_def removeElement_def clearElements_def
      mkPlayer_def Let_def gesture_moved_eval)

text \<open>
  Claim C5.  Each of the five pushes of the hook, and each of the three of the field
  editor, leaves \<open>future\<close> empty, so a redo right after a push returns the state as it is.
\<close>

theorem push_clears_future:
  "future (apply_push h p) = [] \<and> redoAction (apply_push h p) = apply_push h p \<and>
   future (fs_history (fieldAddElement e st)) = [] \<and>
   future (fs_history (fieldUpdateElement i c st)) = [] \<and>
   future (fs_history (fieldRemoveElement i st)) = [] \<and>
   fieldRedo (fieldAddElement e st) = fieldAddElement e st \<and>
   fieldRedo (fieldUpdateElement i c st) = fieldUpdateElement i c st \<and>
   fieldRedo (fieldRemoveElement i st) = fieldRemoveElement i st"
  by (simp add: future_apply_push redoAction_def field_push_future field_noop)

text \<open>
  Claim C9.  An undo on an empty \<open>past\<close> and a redo on an empty \<open>future\<close> return the
  whole triple unchanged, in the hook and in the field editor (where the element list
  stays as it is too).
\<close>

theorem undo_redo_noop:
  "(past h = [] \<longrightarrow> undoAction h = h) \<and> (future h = [] \<longrightarrow> redoAction h = h) \<and>
   (past (fs_history st) = [] \<longrightarrow> fieldUndo st = st) \<and>
   (future (fs_history st) = [] \<longrightarrow> fieldRedo st = st)"
  by (simp add: undoAction_def redoAction_def field_noop)

theorem undo_redo_noop_witness:
  "past emptyHistory = [] \<and> undoAction emptyHistory = emptyHistory \<and>
   future emptyHistory = [] \<and> redoAction emptyHistory = emptyHistory \<and>
   past (fs_history gesture_start) = [] \<and> fieldUndo gesture_start = gesture_start \<and>
   future (fs_history gesture_start) = [] \<and> fieldRedo gesture_start = gesture_start"
  using undo_redo_noop [of emptyHistory gesture_start]
  by (simp add: emptyHistory_def gesture_start_def)

section \<open>Properties of the animation interpolator\<close>


lemma findIndex_Some:
  "findIndex P xs = Some i \<Longrightarrow> i < length xs \<and> P (xs ! i) \<and> (\<forall>j<i. \<not> P (xs ! j))"
proof (induction xs arbitrary: i)
  case Nil
  then show ?case by simp
next
  case (Cons x xs)
  show ?case
  proof (cases "P x")
    case True
    with Cons.prems show ?thesis by simp
  next
    case False
    with Cons.prems obtain k where k: "findIndex P xs = Some k" "i = Suc k"
      by auto
    from Cons.IH [OF k(1)] False k(2) show ?thesis
      by (auto simp: nth_Cons split: nat.splits)
  qed
qed

lemma findIndex_None: "findIndex P xs = None \<longleftrightarrow> (\<forall>x\<in>set xs. \<not> P x)"
  by (induction xs) auto

lemma length_animateArrow [simp]: "length (animateArrow p vs a) = length vs"
  by (simp add: animateArrow_def split: option.splits)

lemma length_foldl_animateArrow [simp]:
  "length (foldl (animateArrow p) vs as) = length vs"
  by (induction as arbitrary: vs) simp_all

lemma moveAlong_type [simp]: "el_type (moveAlong ps p e) = el_type e"
  by (simp add: moveAlong_def Let_def)

lemma moveAlong_moveAlong [simp]:
  "moveAlong ps p (moveAlong qs q e) = moveAlong ps p e"
  by (simp add: moveAlong_def Let_def)

text \<open>One arrow changes at most one element, a player matched by it.\<close>

lemma animateArrow_nth:
  assumes "j < length vs"
  shows "animateArrow p vs a ! j = vs ! j \<or>
         (\<exists>ps. el_points a = Some ps \<and> 4 \<le> length ps \<and> atStart ps (vs ! j) \<and>
               animateArrow p vs a ! j = moveAlong ps p (vs ! j))"
proof (cases "el_points a")
  case None
  then show ?thesis by (simp add: animateArrow_def)
next
  case (Some ps)
  show ?thesis
  proof (cases "findIndex (atStart ps) vs")
    case None
    with Some show ?thesis by (simp add: animateArrow_def)
  next
    case (Some i)
    from findIndex_Some [OF Some] have "i < length vs" "atStart ps (vs ! i)" by auto
    with \<open>el_points a = Some ps\<close> Some assms show ?thesis
      by (cases "j = i") (auto simp: animateArrow_def)
  qed
qed


lemma foldl_animateArrow_type:
  "j < length vs \<Longrightarrow> el_type (foldl (animateArrow p) vs as ! j) = el_type (vs ! j)"
proof (induction as rule: rev_induct)
  case Nil
  then show ?case by simp
next
  case (snoc a as)
  from snoc.prems have "j < length (foldl (animateArrow p) vs as)" by simp
  from animateArrow_nth [OF this, of p a] snoc show ?case by auto
qed

lemma foldl_animateArrow_nth:
  assumes "j < length vs"
  shows "foldl (animateArrow p) vs as ! j = vs ! j \<or>
         (el_type (vs ! j) = ''player'' \<and>
          (\<exists>a\<in>set as. \<exists>ps. el_points a = Some ps \<and> 4 \<le> length ps \<and>
               foldl (animateArrow p) vs as ! j = moveAlong ps p (vs ! j)))"
proof (induction as rule: rev_induct)
  case Nil
  then show ?case by simp
next
  case (snoc a as)
  let ?st = "foldl (animateArrow p) vs as"
  from assms have j: "j < length ?st" by simp
  from animateArrow_nth [OF j, of p a]
  consider (same) "animateArrow p ?st a ! j = ?st ! j"
    | (moved) ps where "el_points a = Some ps" "4 \<le> length ps" "atStart ps (?st ! j)"
        "animateArrow p ?st a ! j = moveAlong ps p (?st ! j)"
    by blast
  then show ?case
  proof cases
    case same
    with snoc.IH show ?thesis by auto
  next
    case moved
    from moved(3) have "el_type (?st ! j) = ''player''" by (simp add: atStart_def)
    then have pl: "el_type (vs ! j) = ''player''"
      using foldl_animateArrow_type [OF assms, of p as] by simp
    from snoc.IH have "moveAlong ps p (?st ! j) = moveAlong ps p (vs ! j)" by auto
    with moved pl show ?thesis by auto
  qed
qed

lemma foldl_animateArrow_unmatched:
  assumes "j < length vs"
    and "\<forall>a\<in>set as. \<forall>ps. el_points a = Some ps \<longrightarrow> 4 \<le> length ps \<longrightarrow> \<not> atStart ps (vs ! j)"
  shows "foldl (animateArrow p) vs as ! j = vs ! j"
  using assms(2)
proof (induction as rule: rev_induct)
  case Nil
  then show ?case by simp
next
  case (snoc a as)
  let ?st = "foldl (animateArrow p) vs as"
  from snoc have eq: "?st ! j = vs ! j" by simp
  from assms have j: "j < length ?st" by simp
  from animateArrow_nth [OF j, of p a] eq snoc.prems show ?case by auto
qed

lemma animateArrow_found:
  assumes "el_points a = Some ps" "4 \<le> length ps" "findIndex (atStart ps) vs = Some i"
  shows "animateArrow p vs a ! i = moveAlong ps p (vs ! i)"
  using assms findIndex_Some [OF assms(3)] by (simp add: animateArrow_def)

lemma animate_matched:
  assumes arrows: "filter (\<lambda>el. isArrowType (el_type el)) elements = as @ arrow # bs"
    and pts: "el_points arrow = Some points" "4 \<le> length points"
    and found: "findIndex (atStart points) (foldl (animateArrow progress) elements as) = Some i"
    and later: "\<forall>b\<in>set bs. \<forall>ps. el_points b = Some ps \<longrightarrow> 4 \<le> length ps \<longrightarrow>
        \<not> atStart ps (moveAlong points progress (foldl (animateArrow progress) elements as ! i))"
  shows "getAnimatedElements elements progress ! i =
         moveAlong points progress (foldl (animateArrow progress) elements as ! i)"
proof -
  let ?st = "foldl (animateArrow progress) elements as"
  let ?st1 = "animateArrow progress ?st arrow"
  have i: "i < length ?st1" using findIndex_Some [OF found] by simp
  have st1: "?st1 ! i = moveAlong points progress (?st ! i)"
    by (rule animateArrow_found [OF pts found])
  have "getAnimatedElements elements progress = foldl (animateArrow progress) ?st1 bs"
    by (simp add: getAnimatedElements_def arrows)
  moreover have "foldl (animateArrow progress) ?st1 bs ! i = ?st1 ! i"
    by (rule foldl_animateArrow_unmatched [OF i]) (use later st1 in simp)
  ultimately show ?thesis using st1 by simp
qed


text \<open>The store version computes the value version behind the existing objects.\<close>

lemma find_refs:
  "List.find (\<lambda>r. P ((h @ vs) ! r)) [length h ..< length h + length vs] =
   map_option (\<lambda>i. length h + i) (findIndex P vs)"
proof (induction vs arbitrary: h)
  case Nil
  then show ?case by simp
next
  case (Cons x xs)
  have upt: "[length h ..< length h + length (x # xs)] =
             length h # [length (h @ [x]) ..< length (h @ [x]) + length xs]"
    by (subst upt_rec) simp
  have tl: "List.find (\<lambda>r. P (((h @ [x]) @ xs) ! r))
              [length (h @ [x]) ..< length (h @ [x]) + length xs] =
            map_option (\<lambda>i. length (h @ [x]) + i) (findIndex P xs)"
    by (rule Cons.IH)
  show ?case
    unfolding upt using tl
    by (simp add: option.map_comp comp_def)
qed

lemma animateArrowRef_step:
  assumes "j < length vs"
  shows "animateArrowRef p [length h ..< length h + length vs] (h @ vs) (length h + j) =
         h @ animateArrow p vs (vs ! j)"
proof -
  have rd: "(h @ vs) ! (length h + j) = vs ! j" by simp
  show ?thesis
  proof (cases "el_points (vs ! j)")
    case None
    then show ?thesis by (simp add: animateArrowRef_def animateArrow_def)
  next
    case (Some ps)
    show ?thesis
    proof (cases "findIndex (atStart ps) vs")
      case None
      with Some show ?thesis
        by (simp add: animateArrowRef_def animateArrow_def find_refs)
    next
      case (Some i)
      with \<open>el_points (vs ! j) = Some ps\<close> show ?thesis
        by (simp add: animateArrowRef_def animateArrow_def find_refs list_update_append)
    qed
  qed
qed

lemma not_arrow_player: "\<not> isArrowType ''player''"
  by (simp add: isArrowType_def)

lemma animateArrow_keeps_arrows:
  assumes "j < length vs" "isArrowType (el_type (vs ! j))"
  shows "animateArrow p vs a ! j = vs ! j"
  using animateArrow_nth [OF assms(1), of p a] assms(2)
  by (auto simp: atStart_def not_arrow_player)

lemma foldl_refs:
  assumes "length vs = length vs0"
    and "\<forall>j\<in>set js. j < length vs0 \<and> isArrowType (el_type (vs0 ! j))"
    and "\<forall>j<length vs0. isArrowType (el_type (vs0 ! j)) \<longrightarrow> vs ! j = vs0 ! j"
  shows "foldl (animateArrowRef p [length h ..< length h + length vs0]) (h @ vs)
           (map (\<lambda>j. length h + j) js) =
         h @ foldl (animateArrow p) vs (map (\<lambda>j. vs0 ! j) js)"
  using assms
proof (induction js arbitrary: vs)
  case Nil
  then show ?case by simp
next
  case (Cons j js)
  from Cons.prems have j: "j < length vs" "isArrowType (el_type (vs0 ! j))" "vs ! j = vs0 ! j"
    by auto
  let ?vs' = "animateArrow p vs (vs0 ! j)"
  have step: "animateArrowRef p [length h ..< length h + length vs0] (h @ vs) (length h + j) =
              h @ ?vs'"
    using animateArrowRef_step [OF j(1), of p h] j(3) Cons.prems(1) by simp
  have keep: "\<forall>k<length vs0. isArrowType (el_type (vs0 ! k)) \<longrightarrow> ?vs' ! k = vs0 ! k"
  proof (intro allI impI)
    fix k assume k: "k < length vs0" "isArrowType (el_type (vs0 ! k))"
    with Cons.prems have "vs ! k = vs0 ! k" "k < length vs" by auto
    with k show "?vs' ! k = vs0 ! k"
      using animateArrow_keeps_arrows [of k vs p "vs0 ! j"] by simp
  qed
  have "foldl (animateArrowRef p [length h ..< length h + length vs0]) (h @ ?vs')
           (map (\<lambda>j. length h + j) js) =
         h @ foldl (animateArrow p) ?vs' (map (\<lambda>j. vs0 ! j) js)"
    by (rule Cons.IH) (use Cons.prems keep in simp_all)
  with step show ?case by simp
qed

lemma filter_by_index:
  "filter P vs = map (\<lambda>j. vs ! j) (filter (\<lambda>j. P (vs ! j)) [0 ..< length vs])"
proof -
  have "filter P vs = filter P (map (\<lambda>j. vs ! j) [0 ..< length vs])"
    by (simp add: map_nth)
  also have "\<dots> = map (\<lambda>j. vs ! j) (filter (\<lambda>j. P (vs ! j)) [0 ..< length vs])"
    by (simp add: filter_map comp_def)
  finally show ?thesis .
qed

lemma filter_refs:
  "filter (\<lambda>r. Q ((h @ vs) ! r)) [length h ..< length h + length vs] =
   map (\<lambda>j. length h + j) (filter (\<lambda>j. Q (vs ! j)) [0 ..< length vs])"
proof -
  have "[length h ..< length h + length vs] = map (\<lambda>j. length h + j) [0 ..< length vs]"
    by (induction vs rule: rev_induct) simp_all
  then show ?thesis
    by (simp add: filter_map comp_def)
qed

lemma getAnimatedElementsRef_refines:
  "getAnimatedElementsRef h elements progress =
     (h @ getAnimatedElements (map (\<lambda>r. h ! r) elements) progress,
      [length h ..< length h + length elements])"
proof -
  let ?vs0 = "map (\<lambda>r. h ! r) elements"
  let ?js = "filter (\<lambda>j. isArrowType (el_type (?vs0 ! j))) [0 ..< length ?vs0]"
  have refs: "filter (\<lambda>r. isArrowType (el_type ((h @ ?vs0) ! r)))
                [length h ..< length h + length ?vs0] = map (\<lambda>j. length h + j) ?js"
    by (rule filter_refs)
  have vals: "filter (\<lambda>el. isArrowType (el_type el)) ?vs0 = map (\<lambda>j. ?vs0 ! j) ?js"
    by (rule filter_by_index)
  have "foldl (animateArrowRef progress [length h ..< length h + length ?vs0]) (h @ ?vs0)
           (map (\<lambda>j. length h + j) ?js) =
         h @ foldl (animateArrow progress) ?vs0 (map (\<lambda>j. ?vs0 ! j) ?js)"
    by (rule foldl_refs) auto
  with refs vals show ?thesis
    by (simp add: getAnimatedElementsRef_def jsonClone_def getAnimatedElements_def)
qed



lemma getAnimatedElements_unmatched:
  assumes j: "j < length elements"
    and un: "\<forall>a\<in>set elements. \<forall>ps. isArrowType (el_type a) \<longrightarrow> el_points a = Some ps \<longrightarrow>
            4 \<le> length ps \<longrightarrow> \<not> atStart ps (elements ! j)"
  shows "getAnimatedElements elements progress ! j = elements ! j"
proof -
  have "foldl (animateArrow progress) elements
          (filter (\<lambda>el. isArrowType (el_type el)) elements) ! j = elements ! j"
    by (rule foldl_animateArrow_unmatched [OF j]) (use un in auto)
  then show ?thesis
    by (simp add: getAnimatedElements_def)
qed

lemma moveAlong_formula:
  "el_x (moveAlong ps p e) = fadd (ps ! 0) (fdiv (fmul (fsub (ps ! 2) (ps ! 0)) p) 100) \<and>
   el_y (moveAlong ps p e) = fadd (ps ! 1) (fdiv (fmul (fsub (ps ! 3) (ps ! 1)) p) 100)"
  by (simp add: moveAlong_def Let_def)

lemma interpolate_0:
  assumes "isDouble s"
  shows "fadd s (fdiv (fmul (fsub e s) 0) 100) = s"
  using assms by (simp add: fadd_def fdiv_def fmul_def isDouble_def)

lemma smallInteger_Ints: "smallInteger v \<Longrightarrow> v \<in> \<int> \<and> \<bar>v\<bar> \<le> 2 ^ 40"
  unfolding smallInteger_def isInteger_def by (metis Ints_of_int)

lemma interpolate_100:
  assumes s: "smallInteger s" and e: "smallInteger e"
  shows "fadd s (fdiv (fmul (fsub e s) 100) 100) = e"
proof -
  from smallInteger_Ints [OF s] have sI: "s \<in> \<int>" and sB: "\<bar>s\<bar> \<le> 2 ^ 40" by simp_all
  from smallInteger_Ints [OF e] have eI: "e \<in> \<int>" and eB: "\<bar>e\<bar> \<le> 2 ^ 40" by simp_all
  have dB: "\<bar>e - s\<bar> \<le> 2 ^ 41" using sB eB by simp
  have d: "fsub e s = e - s"
    unfolding fsub_def by (rule fl_Ints) (use sI eI dB in auto)
  have m: "fmul (e - s) 100 = (e - s) * 100"
    unfolding fmul_def by (rule fl_Ints) (use sI eI dB in auto)
  have q: "(e - s) * 100 / 100 = e - s" by simp
  have v: "fdiv ((e - s) * 100) 100 = e - s"
    unfolding fdiv_def q using d by (simp only: fsub_def)
  have "s + (e - s) = e" by simp
  then have a: "fadd s (e - s) = e"
    unfolding fadd_def using fl_Ints [OF eI] eB by simp
  show ?thesis by (simp only: d m v a)
qed



lemma smallInteger_numeral [simp]: "numeral k \<le> (2::int) ^ 40 \<Longrightarrow> smallInteger (numeral k)"
proof -
  assume "numeral k \<le> (2::int) ^ 40"
  then have "(of_int (numeral k) :: real) \<le> of_int (2 ^ 40)" by (simp only: of_int_le_iff)
  then show ?thesis by (simp add: smallInteger_def isInteger_def)
qed

lemma isDouble_numeral [simp]: "numeral k < (2::int) ^ 53 \<Longrightarrow> isDouble (numeral k)"
  by (simp add: isDouble_def)

lemma isDouble_0 [simp]: "isDouble 0"
  by (simp add: isDouble_def)

lemmas animate_eval =
  getAnimatedElements_def animateArrow_def isArrowType_def mkPlayer_def mkArrow_def
  atStart_def moveAlong_def Let_def fadd_def fsub_def fmul_def fdiv_def

lemma c2_chain_arrows:
  "filter (\<lambda>el. isArrowType (el_type el)) c2_chain =
     [mkArrow ''a0'' ''passArrow'' 110 100 300 300] @
     mkArrow ''a1'' ''moveArrow'' 100 100 200 150 #
     [mkArrow ''a2'' ''shootArrow'' 500 500 600 600]"
  by (simp add: c2_chain_def mkPlayer_def mkArrow_def isArrowType_def)

lemma c2_chain_found:
  "findIndex (atStart [100, 100, 200, 150])
     (foldl (animateArrow 100) c2_chain [mkArrow ''a0'' ''passArrow'' 110 100 300 300]) = Some 1"
  "findIndex (atStart [100, 100, 200, 150])
     (foldl (animateArrow 0) c2_chain [mkArrow ''a0'' ''passArrow'' 110 100 300 300]) = Some 0"
  by (simp_all add: c2_chain_def animate_eval)



text \<open>The interpolation from \<^verbatim>\<open>0.1\<close> to \<^verbatim>\<open>13.8\<close> at progress 100, operation by operation.\<close>

lemma isDouble_d0_1: "isDouble d0_1"
  unfolding isDouble_def d0_1_def
  using fl_exact [of "- 4" "3602879701896397 / 36028797018963968" 7205759403792794] by simp

lemma isDouble_d13_8: "isDouble d13_8"
  unfolding isDouble_def d13_8_def
  using fl_exact [of 3 "3884354678607053 / 281474976710656" 7768709357214106] by simp

lemma inexact_sub: "fsub d13_8 d0_1 = 7712414361871975 / 562949953421312"
  unfolding fsub_def d0_1_def d13_8_def
  using fl_eval [of 3 "3884354678607053 / 281474976710656 - 3602879701896397 / 36028797018963968"
      7712414361871975]
  by simp

lemma inexact_mul: "fmul (7712414361871975 / 562949953421312) 100 = 1370"
  unfolding fmul_def
  using fl_eval [of 10 "7712414361871975 / 562949953421312 * 100" 6025323720212480]
  by simp

lemma inexact_div: "fdiv 1370 100 = 3856207180935987 / 281474976710656"
  unfolding fdiv_def
  using fl_eval [of 3 "1370 / 100" 7712414361871974]
  by simp

lemma inexact_add:
  "fadd d0_1 (3856207180935987 / 281474976710656) = 7768709357214105 / 562949953421312"
  unfolding fadd_def d0_1_def
  using fl_eval [of 3 "3602879701896397 / 36028797018963968 + 3856207180935987 / 281474976710656"
      7768709357214105]
  by simp

lemma inexact_interpolation:
  "fadd d0_1 (fdiv (fmul (fsub d13_8 d0_1) 100) 100) = 7768709357214105 / 562949953421312"
  by (simp only: inexact_sub inexact_mul inexact_div inexact_add)

lemma c2_inexact_moved:
  "getAnimatedElements c2_inexact 100 ! 0 =
     moveAlong [d0_1, 0, d13_8, 0] 100 (mkPlayer ''p1'' d0_1 0)"
  by (simp add: c2_inexact_def getAnimatedElements_def animateArrow_def isArrowType_def
      mkPlayer_def mkArrow_def atStart_def fsub_def Let_def)

lemma c2_inexact_x:
  "el_x (getAnimatedElements c2_inexact 100 ! 0) = 7768709357214105 / 562949953421312"
  unfolding c2_inexact_moved using inexact_interpolation by (simp add: moveAlong_formula)

text \<open>
  The player at \<^verbatim>\<open>20.7\<close> and the arrow starting at \<^verbatim>\<open>0.7\<close>: the difference of the two
  doubles is below 20 and rounds to 20.
\<close>

lemma isDouble_d0_7: "isDouble d0_7"
  unfolding isDouble_def d0_7_def
  using fl_exact [of "- 1" "3152519739159347 / 4503599627370496" 6305039478318694] by simp

lemma isDouble_d20_7: "isDouble d20_7"
  unfolding isDouble_def d20_7_def
  using fl_exact [of 4 "5826532017910579 / 281474976710656" 5826532017910579] by simp

lemma near_sub: "fsub d20_7 d0_7 = 20"
  unfolding fsub_def d0_7_def d20_7_def
  using fl_eval [of 4 "5826532017910579 / 281474976710656 - 3152519739159347 / 4503599627370496"
      5629499534213120]
  by simp

lemma c2_near_unmoved:
  "\<bar>d20_7 - d0_7\<bar> < 20 \<and>
   el_type (c2_near ! 0) = ''player'' \<and> el_x (c2_near ! 0) = d20_7 \<and>
   el_points (c2_near ! 1) = Some [d0_7, 0, 100, 0] \<and>
   getAnimatedElements c2_near 100 ! 0 = c2_near ! 0"
proof -
  have "\<bar>d20_7 - d0_7\<bar> < 20" by (simp add: d0_7_def d20_7_def)
  moreover have "getAnimatedElements c2_near 100 ! 0 = c2_near ! 0"
    by (simp add: c2_near_def getAnimatedElements_def animateArrow_def isArrowType_def
        mkPlayer_def mkArrow_def atStart_def near_sub Let_def)
  ultimately show ?thesis by (simp add: c2_near_def mkPlayer_def mkArrow_def)
qed


text \<open>The scenario of the specification: half way from \<open>(100, 100)\<close> to \<open>(200, 150)\<close>.\<close>

lemma animate_scenario_50:
  "el_x (getAnimatedElements c2_double 50 ! 0) = 150 \<and>
   el_y (getAnimatedElements c2_double 50 ! 0) = 125"
  by (simp add: c2_double_def animate_eval)

text \<open>
  Claim C8.  Over the store: the objects that existed before the call are unchanged (the
  input collection is not mutated), the result consists of freshly allocated objects,
  and each of them equals the input element at its index unless that element is a player
  that some arrow of the collection repositioned; an element that the start box of no
  arrow contains (every ball, text and arrow, and every player away from the arrow
  starts) is equal to its input.
\<close>

theorem animate_frame:
  assumes run: "getAnimatedElementsRef h elements progress = (h', out)"
  shows
    "take (length h) h' = h \<and>
     length out = length elements \<and>
     (\<forall>i<length elements.
        length h \<le> out ! i \<and> out ! i < length h' \<and>
        (h' ! (out ! i) = h ! (elements ! i) \<or>
         el_type (h ! (elements ! i)) = ''player'' \<and>
         (\<exists>a\<in>set elements. \<exists>ps. isArrowType (el_type (h ! a)) \<and>
             el_points (h ! a) = Some ps \<and> 4 \<le> length ps \<and>
             h' ! (out ! i) = moveAlong ps progress (h ! (elements ! i))))) \<and>
     (\<forall>i<length elements.
        (\<forall>a\<in>set elements. \<forall>ps. isArrowType (el_type (h ! a)) \<longrightarrow>
            el_points (h ! a) = Some ps \<longrightarrow> 4 \<le> length ps \<longrightarrow>
            \<not> atStart ps (h ! (elements ! i))) \<longrightarrow>
        h' ! (out ! i) = h ! (elements ! i))"
proof -
  let ?vs0 = "map (\<lambda>r. h ! r) elements"
  let ?res = "getAnimatedElements ?vs0 progress"
  let ?as = "filter (\<lambda>el. isArrowType (el_type el)) ?vs0"
  from run have h': "h' = h @ ?res" and out: "out = [length h ..< length h + length elements]"
    by (simp_all add: getAnimatedElementsRef_refines)
  have res: "?res = foldl (animateArrow progress) ?vs0 ?as"
    by (simp add: getAnimatedElements_def Let_def)
  have len: "length ?res = length elements"
    by (simp add: res)
  have each: "h' ! (out ! i) = h ! (elements ! i) \<or>
         el_type (h ! (elements ! i)) = ''player'' \<and>
         (\<exists>a\<in>set elements. \<exists>ps. isArrowType (el_type (h ! a)) \<and>
             el_points (h ! a) = Some ps \<and> 4 \<le> length ps \<and>
             h' ! (out ! i) = moveAlong ps progress (h ! (elements ! i)))"
    if i: "i < length elements" for i
  proof -
    from i have rd: "h' ! (out ! i) = ?res ! i"
      by (simp add: h' out del: length_map)
    from i have i': "i < length ?vs0" by simp
    from foldl_animateArrow_nth [OF i', of progress ?as]
    consider "?res ! i = ?vs0 ! i"
      | a ps where "el_type (?vs0 ! i) = ''player''" "a \<in> set ?as" "el_points a = Some ps"
          "4 \<le> length ps" "?res ! i = moveAlong ps progress (?vs0 ! i)"
      unfolding res by blast
    then show ?thesis
    proof cases
      case 1
      with rd i show ?thesis by simp
    next
      case 2
      from 2(2) obtain r where "r \<in> set elements" "a = h ! r" "isArrowType (el_type (h ! r))"
        by auto
      with 2 rd i show ?thesis by auto
    qed
  qed
  have unmatched: "h' ! (out ! i) = h ! (elements ! i)"
    if i: "i < length elements"
      and un: "\<forall>a\<in>set elements. \<forall>ps. isArrowType (el_type (h ! a)) \<longrightarrow>
            el_points (h ! a) = Some ps \<longrightarrow> 4 \<le> length ps \<longrightarrow>
            \<not> atStart ps (h ! (elements ! i))" for i
  proof -
    from i have rd: "h' ! (out ! i) = ?res ! i"
      by (simp add: h' out del: length_map)
    from i have i': "i < length ?vs0" by simp
    have "?res ! i = ?vs0 ! i"
      by (rule getAnimatedElements_unmatched [OF i']) (use un i in auto)
    with rd i show ?thesis by simp
  qed
  show ?thesis
    using each unmatched len by (simp add: h' out)
qed

theorem animate_frame_witness:
  "getAnimatedElementsRef c8_heap [0, 1, 2] 100 =
     (c8_heap @ [mkPlayer ''p1'' 200 150, mkArrow ''a1'' ''moveArrow'' 100 100 200 150,
                 mkPlayer ''p2'' 300 300], [3, 4, 5]) \<and>
   take (length c8_heap)
     (c8_heap @ [mkPlayer ''p1'' 200 150, mkArrow ''a1'' ''moveArrow'' 100 100 200 150,
                 mkPlayer ''p2'' 300 300]) = c8_heap"
proof -
  have run: "getAnimatedElementsRef c8_heap [0, 1, 2] 100 =
     (c8_heap @ [mkPlayer ''p1'' 200 150, mkArrow ''a1'' ''moveArrow'' 100 100 200 150,
                 mkPlayer ''p2'' 300 300], [3, 4, 5])"
    by (simp add: getAnimatedElementsRef_def jsonClone_def animateArrowRef_def c8_heap_def
        mkPlayer_def mkArrow_def isArrowType_def atStart_def moveAlong_def Let_def
        fadd_def fsub_def fmul_def fdiv_def
        upt_rec [of 3] upt_rec [of 4] upt_rec [of 5] upt_rec [of 6])
  from animate_frame [OF run] run show ?thesis by simp
qed

text \<open>The field editor returns its own list while it is not animating.\<close>

lemma fieldGetAnimatedElements_idle:
  "\<not> fs_isAnimating st \<Longrightarrow> fieldGetAnimatedElements st = fs_elements st"
  by (simp add: fieldGetAnimatedElements_def)

lemma fieldGetAnimatedElements_running:
  "fs_isAnimating st \<Longrightarrow>
   fieldGetAnimatedElements st = getAnimatedElements (fs_elements st) (fs_animationProgress st)"
  by (simp add: fieldGetAnimatedElements_def)

section \<open>Properties of the geometry helpers\<close>

subsection \<open>The test over the real numbers\<close>

lemma pointDistance_id:
  "pointDistance id p q = sqrt ((fst q - fst p)\<^sup>2 + (snd q - snd p)\<^sup>2)"
  by (simp add: pointDistance_def power2_eq_square)

lemma pointDistance_id_zero: "pointDistance id a b = 0 \<longleftrightarrow> a = b"
  by (auto simp: pointDistance_id sum_power2_eq_zero_iff prod_eq_iff)

lemma scalarProjection_id:
  "scalarProjection id p a b =
     ((fst p - fst a) * (fst b - fst a) + (snd p - snd a) * (snd b - snd a)) /
     ((fst b - fst a)\<^sup>2 + (snd b - snd a)\<^sup>2)"
  by (simp add: scalarProjection_def pointDistance_id)

lemma projectionPoint_id:
  "projectionPoint id a b t = (fst a + t * (fst b - fst a), snd a + t * (snd b - snd a))"
  by (simp add: projectionPoint_def)

text \<open>The squared distance from the point to the point of the segment at parameter \<open>s\<close>.\<close>

lemma distance_to_param:
  "sqrt ((x1 + s * (x2 - x1) - px)\<^sup>2 + (y1 + s * (y2 - y1) - py)\<^sup>2) =
   sqrt ((px - x1)\<^sup>2 + (py - y1)\<^sup>2
         - 2 * s * ((px - x1) * (x2 - x1) + (py - y1) * (y2 - y1))
         + s\<^sup>2 * ((x2 - x1)\<^sup>2 + (y2 - y1)\<^sup>2))"
  by (rule arg_cong [where f = sqrt]) (simp add: power2_eq_square algebra_simps)

lemma nearest_before:
  fixes A N L s :: real
  assumes "N \<le> 0" "0 \<le> L" "0 \<le> s"
  shows "A - 2 * 0 * N + 0\<^sup>2 * L \<le> A - 2 * s * N + s\<^sup>2 * L"
proof -
  have "0 \<le> s * (- N)" using assms by (intro mult_nonneg_nonneg) simp_all
  moreover have "0 \<le> s\<^sup>2 * L" using assms by simp
  ultimately show ?thesis by simp
qed

lemma nearest_after:
  fixes A N L s :: real
  assumes "L \<le> N" "0 \<le> L" "s \<le> 1" "0 \<le> s"
  shows "A - 2 * 1 * N + 1\<^sup>2 * L \<le> A - 2 * s * N + s\<^sup>2 * L"
proof -
  have "0 \<le> (1 - s) * (2 * N - (1 + s) * L)"
  proof (intro mult_nonneg_nonneg)
    show "0 \<le> 1 - s" using assms by simp
    have "(1 + s) * L \<le> 2 * L" using assms by (intro mult_right_mono) simp_all
    then show "0 \<le> 2 * N - (1 + s) * L" using assms by simp
  qed
  also have "(1 - s) * (2 * N - (1 + s) * L) =
             (A - 2 * s * N + s\<^sup>2 * L) - (A - 2 * 1 * N + 1\<^sup>2 * L)"
    by (simp add: power2_eq_square algebra_simps)
  finally show ?thesis by simp
qed

lemma nearest_between:
  fixes A N L s :: real
  assumes "0 < L"
  shows "A - 2 * (N / L) * N + (N / L)\<^sup>2 * L \<le> A - 2 * s * N + s\<^sup>2 * L"
proof -
  have "(A - 2 * s * N + s\<^sup>2 * L) - (A - 2 * (N / L) * N + (N / L)\<^sup>2 * L) = L * (s - N / L)\<^sup>2"
    using assms by (simp add: power2_eq_square field_simps)
  moreover have "0 \<le> L * (s - N / L)\<^sup>2" using assms by simp
  ultimately show ?thesis by linarith
qed

lemma nearest_param:
  assumes c: "0 \<le> c" "c \<le> 1"
    and least: "\<And>s. 0 \<le> s \<Longrightarrow> s \<le> 1 \<Longrightarrow>
        (px - x1)\<^sup>2 + (py - y1)\<^sup>2
          - 2 * c * ((px - x1) * (x2 - x1) + (py - y1) * (y2 - y1))
          + c\<^sup>2 * ((x2 - x1)\<^sup>2 + (y2 - y1)\<^sup>2)
        \<le> (px - x1)\<^sup>2 + (py - y1)\<^sup>2
          - 2 * s * ((px - x1) * (x2 - x1) + (py - y1) * (y2 - y1))
          + s\<^sup>2 * ((x2 - x1)\<^sup>2 + (y2 - y1)\<^sup>2)"
  shows "(\<exists>s. 0 \<le> s \<and> s \<le> 1 \<and>
            sqrt ((x1 + s * (x2 - x1) - px)\<^sup>2 + (y1 + s * (y2 - y1) - py)\<^sup>2) \<le> th) \<longleftrightarrow>
         sqrt ((x1 + c * (x2 - x1) - px)\<^sup>2 + (y1 + c * (y2 - y1) - py)\<^sup>2) \<le> th"
proof
  assume "\<exists>s. 0 \<le> s \<and> s \<le> 1 \<and>
            sqrt ((x1 + s * (x2 - x1) - px)\<^sup>2 + (y1 + s * (y2 - y1) - py)\<^sup>2) \<le> th"
  then obtain s where s: "0 \<le> s" "s \<le> 1"
    and near: "sqrt ((x1 + s * (x2 - x1) - px)\<^sup>2 + (y1 + s * (y2 - y1) - py)\<^sup>2) \<le> th"
    by blast
  have "sqrt ((x1 + c * (x2 - x1) - px)\<^sup>2 + (y1 + c * (y2 - y1) - py)\<^sup>2) \<le>
        sqrt ((x1 + s * (x2 - x1) - px)\<^sup>2 + (y1 + s * (y2 - y1) - py)\<^sup>2)"
    unfolding distance_to_param
    by (rule real_sqrt_le_mono) (rule least [OF s])
  from this near
  show "sqrt ((x1 + c * (x2 - x1) - px)\<^sup>2 + (y1 + c * (y2 - y1) - py)\<^sup>2) \<le> th"
    by (rule order_trans)
next
  assume "sqrt ((x1 + c * (x2 - x1) - px)\<^sup>2 + (y1 + c * (y2 - y1) - py)\<^sup>2) \<le> th"
  with c show "\<exists>s. 0 \<le> s \<and> s \<le> 1 \<and>
            sqrt ((x1 + s * (x2 - x1) - px)\<^sup>2 + (y1 + s * (y2 - y1) - py)\<^sup>2) \<le> th"
    by blast
qed

lemma pointNearSegment_id_cases:
  "pointNearSegment id (px, py) (x1, y1) (x2, y2) th \<longleftrightarrow>
     (if x1 = x2 \<and> y1 = y2
      then sqrt ((x1 + 0 * (x2 - x1) - px)\<^sup>2 + (y1 + 0 * (y2 - y1) - py)\<^sup>2) \<le> th
      else if scalarProjection id (px, py) (x1, y1) (x2, y2) < 0
      then sqrt ((x1 + 0 * (x2 - x1) - px)\<^sup>2 + (y1 + 0 * (y2 - y1) - py)\<^sup>2) \<le> th
      else if scalarProjection id (px, py) (x1, y1) (x2, y2) > 1
      then sqrt ((x1 + 1 * (x2 - x1) - px)\<^sup>2 + (y1 + 1 * (y2 - y1) - py)\<^sup>2) \<le> th
      else sqrt ((x1 + scalarProjection id (px, py) (x1, y1) (x2, y2) * (x2 - x1) - px)\<^sup>2 +
                 (y1 + scalarProjection id (px, py) (x1, y1) (x2, y2) * (y2 - y1) - py)\<^sup>2)
             \<le> th)"
  by (simp add: pointNearSegment_def pointDistance_id_zero pointDistance_id projectionPoint_id)

lemma pointNearSegment_id_exists:
  "pointNearSegment id (px, py) (x1, y1) (x2, y2) th \<longleftrightarrow>
     (\<exists>s. 0 \<le> s \<and> s \<le> 1 \<and>
          sqrt ((x1 + s * (x2 - x1) - px)\<^sup>2 + (y1 + s * (y2 - y1) - py)\<^sup>2) \<le> th)"
proof -
  define L where "L = (x2 - x1)\<^sup>2 + (y2 - y1)\<^sup>2"
  define N where "N = (px - x1) * (x2 - x1) + (py - y1) * (y2 - y1)"
  define t where "t = scalarProjection id (px, py) (x1, y1) (x2, y2)"
  have t: "t = N / L" by (simp add: t_def scalarProjection_id N_def L_def)
  have L0: "0 \<le> L" by (simp add: L_def)
  consider (degenerate) "x1 = x2 \<and> y1 = y2"
    | (before) "\<not> (x1 = x2 \<and> y1 = y2)" "t < 0"
    | (after) "\<not> (x1 = x2 \<and> y1 = y2)" "\<not> t < 0" "t > 1"
    | (between) "\<not> (x1 = x2 \<and> y1 = y2)" "\<not> t < 0" "\<not> t > 1"
    by blast
  then show ?thesis
  proof cases
    case degenerate
    then show ?thesis
      by (auto simp: pointNearSegment_id_cases intro: exI [of _ 0])
  next
    case before
    then have "0 < L" by (auto simp: L_def sum_power2_gt_zero_iff)
    with before t have "N \<le> 0" by (simp add: divide_less_0_iff)
    have "(\<exists>s. 0 \<le> s \<and> s \<le> 1 \<and>
            sqrt ((x1 + s * (x2 - x1) - px)\<^sup>2 + (y1 + s * (y2 - y1) - py)\<^sup>2) \<le> th) \<longleftrightarrow>
          sqrt ((x1 + 0 * (x2 - x1) - px)\<^sup>2 + (y1 + 0 * (y2 - y1) - py)\<^sup>2) \<le> th"
      by (rule nearest_param)
         (use nearest_before [OF \<open>N \<le> 0\<close> L0] in \<open>simp_all add: N_def L_def\<close>)
    with before show ?thesis
      by (simp only: pointNearSegment_id_cases t_def if_True if_False)
  next
    case after
    then have "0 < L" by (auto simp: L_def sum_power2_gt_zero_iff)
    with after t have "L \<le> N" by (simp add: field_simps)
    have "(\<exists>s. 0 \<le> s \<and> s \<le> 1 \<and>
            sqrt ((x1 + s * (x2 - x1) - px)\<^sup>2 + (y1 + s * (y2 - y1) - py)\<^sup>2) \<le> th) \<longleftrightarrow>
          sqrt ((x1 + 1 * (x2 - x1) - px)\<^sup>2 + (y1 + 1 * (y2 - y1) - py)\<^sup>2) \<le> th"
      by (rule nearest_param)
         (use nearest_after [OF \<open>L \<le> N\<close> L0] in \<open>simp_all add: N_def L_def\<close>)
    with after show ?thesis
      by (simp only: pointNearSegment_id_cases t_def if_True if_False)
  next
    case between
    then have "0 < L" by (auto simp: L_def sum_power2_gt_zero_iff)
    have least: "(px - x1)\<^sup>2 + (py - y1)\<^sup>2 - 2 * t * N + t\<^sup>2 * L \<le>
                 (px - x1)\<^sup>2 + (py - y1)\<^sup>2 - 2 * s * N + s\<^sup>2 * L" for s
      unfolding t by (rule nearest_between [OF \<open>0 < L\<close>])
    from between have "0 \<le> t" "t \<le> 1" by simp_all
    then have "(\<exists>s. 0 \<le> s \<and> s \<le> 1 \<and>
            sqrt ((x1 + s * (x2 - x1) - px)\<^sup>2 + (y1 + s * (y2 - y1) - py)\<^sup>2) \<le> th) \<longleftrightarrow>
          sqrt ((x1 + t * (x2 - x1) - px)\<^sup>2 + (y1 + t * (y2 - y1) - py)\<^sup>2) \<le> th"
      by (rule nearest_param) (rule least [unfolded N_def L_def])
    with between show ?thesis
      by (simp only: pointNearSegment_id_cases t_def if_True if_False)
  qed
qed

subsection \<open>The test in the arithmetic of the program\<close>

text \<open>The rounded square root, from bounds on the squares.\<close>

lemma fsqrt_eval:
  assumes e: "- 1022 \<le> e"
    and lo: "(2 powi e)\<^sup>2 \<le> x" and hi: "x < (2 powi (e + 1))\<^sup>2"
    and below: "((of_int m - 1 / 2) * 2 powi (e - 52))\<^sup>2 < x"
    and above: "x < ((of_int m + 1 / 2) * 2 powi (e - 52))\<^sup>2"
    and m: "1 \<le> m"
  shows "fsqrt x = of_int m * 2 powi (e - 52)"
proof -
  have u: "(0::real) < 2 powi (e - 52)" by simp
  have x0: "0 \<le> x" using lo by (smt (verit) zero_le_power2)
  have l1: "2 powi e \<le> \<bar>sqrt x\<bar>"
    using real_le_rsqrt [OF lo] by simp
  have l2: "\<bar>sqrt x\<bar> < 2 powi (e + 1)"
    using real_less_lsqrt [OF _ hi] x0 by simp
  have b1: "(of_int m - 1 / 2) * 2 powi (e - 52) < sqrt x"
    by (rule real_less_rsqrt [OF below])
  have "0 \<le> (of_int m + 1 / 2) * (2::real) powi (e - 52)"
    using m by simp
  then have b2: "sqrt x < (of_int m + 1 / 2) * 2 powi (e - 52)"
    by (rule real_less_lsqrt [OF _ above])
  from b1 u have "of_int m - 1 / 2 < sqrt x / 2 powi (e - 52)"
    by (simp add: pos_less_divide_eq)
  moreover from b2 u have "sqrt x / 2 powi (e - 52) < of_int m + 1 / 2"
    by (simp add: pos_divide_less_eq)
  ultimately have "\<bar>sqrt x / 2 powi (e - 52) - of_int m\<bar> < 1 / 2" by linarith
  from fl_eval [OF l1 l2 e this] show ?thesis by (simp add: fsqrt_def)
qed

lemma sqrt_9: "sqrt 9 = 3"
  using real_sqrt_abs [of 3] by simp

lemma sqrt_25: "sqrt 25 = 5"
  using real_sqrt_abs [of 5] by simp

lemma sqrt_10000: "sqrt 10000 = 100"
  using real_sqrt_abs [of 100] by simp

lemma fl_half: "fl (1 / 2) = 1 / 2"
  using fl_exact [of "- 1" "1 / 2" 4503599627370496] by simp

lemma fl_21_20: "fl (21 / 20) = 4728779608739021 / 2 ^ 52"
  using fl_eval [of 0 "21 / 20" 4728779608739021] by simp

lemma fl_m1_20: "fl (- (1 / 20)) = - (7205759403792794 / 2 ^ 57)"
  using fl_eval [of "- 5" "- (1 / 20)" "- 7205759403792794"] by simp

lemmas rounding_eval =
  fadd_def fsub_def fmul_def fdiv_def fpow2_def fsqrt_def
  sqrt_9 sqrt_25 sqrt_10000 fl_half fl_21_20 fl_m1_20

lemma distance_pointDistance: "distance x1 y1 x2 y2 = pointDistance fl (x1, y1) (x2, y2)"
  by (simp add: distance_def pointDistance_def fsqrt_def fadd_def fpow2_def fsub_def)

lemma isPointNearLine_pointNearSegment:
  "isPointNearLine px py x1 y1 x2 y2 threshold =
     pointNearSegment fl (px, py) (x1, y1) (x2, y2) threshold"
  by (simp add: isPointNearLine_def pointNearSegment_def distance_pointDistance
      scalarProjection_def projectionPoint_def fadd_def fsub_def fmul_def fdiv_def Let_def)

lemma pointDistance_same: "pointDistance fl p p = 0"
  by (simp add: pointDistance_def)



text \<open>The test at the point \<open>(1, 1)\<close> of the segment from \<open>(0, 0)\<close> to \<open>(3, 3)\<close>, step by step.\<close>

lemma fsqrt_18: "fsqrt 18 = 4776788754394329 / 2 ^ 50"
  using fsqrt_eval [of 2 18 4776788754394329] by (simp add: power2_eq_square)

lemma diagonal_length: "distance 0 0 3 3 = 4776788754394329 / 2 ^ 50"
  by (simp add: distance_def fsub_def fpow2_def fadd_def fsqrt_18)

lemma diagonal_square:
  "fmul (4776788754394329 / 2 ^ 50) (4776788754394329 / 2 ^ 50) = 5066549580791807 / 2 ^ 48"
  unfolding fmul_def
  using fl_eval [of 4 "4776788754394329 / 2 ^ 50 * (4776788754394329 / 2 ^ 50)" 5066549580791807]
  by simp

lemma diagonal_t: "fdiv 6 (5066549580791807 / 2 ^ 48) = 6004799503160663 / 2 ^ 54"
  unfolding fdiv_def
  using fl_eval [of "- 2" "6 / (5066549580791807 / 2 ^ 48)" 6004799503160663]
  by simp

lemma diagonal_step: "fmul (6004799503160663 / 2 ^ 54) 3 = 4503599627370497 / 2 ^ 52"
  unfolding fmul_def
  using fl_eval [of 0 "6004799503160663 / 2 ^ 54 * 3" 4503599627370497]
  by simp

lemma diagonal_proj: "fadd 0 (4503599627370497 / 2 ^ 52) = 4503599627370497 / 2 ^ 52"
  unfolding fadd_def
  using fl_exact [of 0 "0 + 4503599627370497 / 2 ^ 52" 4503599627370497]
  by simp

lemma diagonal_off: "fsub (4503599627370497 / 2 ^ 52) 1 = 1 / 2 ^ 52"
  unfolding fsub_def
  using fl_exact [of "- 52" "4503599627370497 / 2 ^ 52 - 1" 4503599627370496]
  by simp

lemma diagonal_off_square: "fpow2 (1 / 2 ^ 52) = 1 / 2 ^ 104"
  unfolding fpow2_def
  using fl_exact [of "- 104" "1 / 2 ^ 52 * (1 / 2 ^ 52)" 4503599627370496]
  by simp

lemma diagonal_off_sum: "fadd (1 / 2 ^ 104) (1 / 2 ^ 104) = 1 / 2 ^ 103"
  unfolding fadd_def
  using fl_exact [of "- 103" "1 / 2 ^ 104 + 1 / 2 ^ 104" 4503599627370496]
  by simp

lemma diagonal_off_distance: "0 < fsqrt (1 / 2 ^ 103)"
proof -
  have "1 / 2 ^ 52 \<le> sqrt (1 / 2 ^ 103)"
    by (rule real_le_rsqrt) (simp add: power2_eq_square)
  moreover have "(2::real) powi (- 1022) \<le> 1 / 2 ^ 52" by simp
  ultimately have "2 powi (- 1022) \<le> sqrt (1 / 2 ^ 103)" by (rule order_trans [rotated])
  then show ?thesis unfolding fsqrt_def by (rule fl_pos)
qed

lemma diagonal_distance:
  "0 < distance 1 1 (4503599627370497 / 2 ^ 52) (4503599627370497 / 2 ^ 52)"
  unfolding distance_def
  by (simp only: diagonal_off diagonal_off_square diagonal_off_sum diagonal_off_distance)

lemma diagonal_projection:
  "fdiv (fadd (fmul (fsub 1 0) (fsub 3 0)) (fmul (fsub 1 0) (fsub 3 0)))
        (fmul (4776788754394329 / 2 ^ 50) (4776788754394329 / 2 ^ 50)) =
     6004799503160663 / 2 ^ 54"
proof -
  have "fadd (fmul (fsub 1 0) (fsub 3 0)) (fmul (fsub 1 0) (fsub 3 0)) = 6"
    by (simp add: fsub_def fmul_def fadd_def)
  then show ?thesis by (simp only: diagonal_square diagonal_t)
qed

lemma diagonal_test: "\<not> isPointNearLine 1 1 0 0 3 3 0"
proof -
  have three: "fsub 3 0 = 3" by (simp add: fsub_def)
  have "isPointNearLine 1 1 0 0 3 3 0 =
      (distance 1 1 (4503599627370497 / 2 ^ 52) (4503599627370497 / 2 ^ 52) \<le> 0)"
    apply (simp only: isPointNearLine_def diagonal_length Let_def diagonal_projection)
    apply (simp only: three diagonal_step diagonal_proj)
    apply simp
    done
  with diagonal_distance show ?thesis by simp
qed

lemma diagonal_exact: "pointNearSegment id (1, 1) (0, 0) (3, 3) 0"
  unfolding pointNearSegment_id_exists
  by (rule exI [of _ "1 / 3"]) simp


text \<open>
  The arrow branch of the field editor's hit test announces the distance from the point
  to the line segment and does not clamp: beyond either end of the arrow, and for an
  arrow of length 0, it answers no where \<^verbatim>\<open>isPointNearLine\<close> with the same threshold
  answers yes.
\<close>

lemma isPointInElement_beyond_tip:
  "\<not> isPointInElement 205 150 (mkArrow ''a1'' ''moveArrow'' 100 150 200 150) \<and>
   isPointNearLine 205 150 100 150 200 150 10 \<and>
   \<not> isPointInElement 95 150 (mkArrow ''a1'' ''moveArrow'' 100 150 200 150) \<and>
   isPointNearLine 95 150 100 150 200 150 10 \<and>
   \<not> isPointInElement 100 150 (mkArrow ''a1'' ''moveArrow'' 100 150 100 150) \<and>
   isPointNearLine 100 150 100 150 100 150 10 \<and>
   isPointInElement 150 153 (mkArrow ''a1'' ''moveArrow'' 100 150 200 150) \<and>
   isPointNearLine 150 153 100 150 200 150 10"
  by (simp add: isPointInElement_def mkArrow_def isArrowType_def isPointNearLine_def
      distance_def rounding_eval Let_def)

section \<open>Properties of the pointer handlers\<close>

lemma handleMouseUp_drawing:
  assumes "fs_isDrawing st" "fs_startPoint st = Some (sx, sy)"
  shows "fs_elements (handleMouseUp (px, py) generatedId st) =
           filter (\<lambda>el. el_id el \<noteq> ''tempArrow'') (fs_elements st) @
           (if \<bar>fsub sx px\<bar> > 5 \<or> \<bar>fsub sy py\<bar> > 5
            then [\<lparr> el_id = generatedId, el_type = fs_selectedTool st, el_x = sx, el_y = sy,
                    el_points = Some [sx, sy, px, py], el_position = None, el_team = None,
                    el_text = None \<rparr>]
            else [])"
    and "present (fs_history (handleMouseUp (px, py) generatedId st)) =
           filter (\<lambda>el. el_id el \<noteq> ''tempArrow'') (present (fs_history st)) @
           (if \<bar>fsub sx px\<bar> > 5 \<or> \<bar>fsub sy py\<bar> > 5
            then [\<lparr> el_id = generatedId, el_type = fs_selectedTool st, el_x = sx, el_y = sy,
                    el_points = Some [sx, sy, px, py], el_position = None, el_team = None,
                    el_text = None \<rparr>]
            else [])"
  using assms
  by (simp_all add: handleMouseUp_def fieldRemoveElement_def fieldAddElement_def Let_def)

text \<open>
  The page editor draws no preview into its lists: the release appends the arrow iff the
  computed displacement exceeds 5 in x or in y, and changes nothing else.
\<close>

lemma pageHandleMouseUp_drawing:
  assumes "pg_isDrawing pg" "pg_startPoint pg = Some (sx, sy)"
    "pg_selectedTool pg \<in> set [''move'', ''pass'', ''shoot'']"
  shows "pg_arrows (pageHandleMouseUp (px, py) generatedId pg) =
           pg_arrows pg @
           (if \<bar>fsub sx px\<bar> > 5 \<or> \<bar>fsub sy py\<bar> > 5
            then [\<lparr> ar_id = generatedId, ar_type = pg_selectedTool pg,
                    ar_startX = sx, ar_startY = sy, ar_endX = px, ar_endY = py \<rparr>]
            else [])"
    and "pg_players (pageHandleMouseUp (px, py) generatedId pg) = pg_players pg"
    and "pg_balls (pageHandleMouseUp (px, py) generatedId pg) = pg_balls pg"
  using assms
  by (auto simp add: pageHandleMouseUp_def addToHistory_def Let_def)


text \<open>
  Claim C6 does not hold of the field editor.  The pointer move stores the preview with
  \<^verbatim>\<open>addElement\<close>, so it is the last element of \<open>present\<close>; the release removes it
  with \<^verbatim>\<open>removeElement\<close>, which first pushes the collection holding it onto \<open>past\<close>;
  two undos after the gesture bring it back into the element list.
\<close>

theorem preview_in_history:
  "present (fs_history (gesture_moved (150, 150))) =
     [mkPlayer ''p1'' 50 50, mkArrow ''tempArrow'' ''moveArrow'' 100 100 150 150] \<and>
   past (fs_history (handleMouseUp (150, 150) ''g1'' (gesture_moved (150, 150)))) =
     [[mkPlayer ''p1'' 50 50],
      [mkPlayer ''p1'' 50 50, mkArrow ''tempArrow'' ''moveArrow'' 100 100 150 150],
      [mkPlayer ''p1'' 50 50]] \<and>
   fs_elements (fieldUndo (fieldUndo
       (handleMouseUp (150, 150) ''g1'' (gesture_moved (150, 150))))) =
     [mkPlayer ''p1'' 50 50, mkArrow ''tempArrow'' ''moveArrow'' 100 100 150 150]"
  by (simp add: gesture_moved_eval gesture_start_def handleMouseUp_def fieldRemoveElement_def
      fieldAddElement_def fieldUndo_def mkPlayer_def mkArrow_def fsub_def Let_def)

section \<open>Properties of the in-memory storage\<close>

lemma mapSet_keys: "fst ` set (mapSet k v m) = insert k (fst ` set m)"
proof (induction m)
  case Nil
  show ?case by simp
next
  case (Cons e m)
  obtain k' v' where e: "e = (k', v')" by (cases e)
  show ?case
  proof (cases "k' = k")
    case True
    with e show ?thesis by simp
  next
    case False
    with e Cons show ?thesis by (simp add: insert_commute)
  qed
qed

lemma mapSet_distinct: "distinct (map fst m) \<Longrightarrow> distinct (map fst (mapSet k v m))"
proof (induction m)
  case Nil
  show ?case by simp
next
  case (Cons e m)
  obtain k' v' where e: "e = (k', v')" by (cases e)
  show ?case
  proof (cases "k' = k")
    case True
    with e Cons.prems show ?thesis by simp
  next
    case False
    with e Cons show ?thesis by (simp add: mapSet_keys)
  qed
qed

lemma mapSet_entries: "e \<in> set (mapSet k v m) \<Longrightarrow> e = (k, v) \<or> e \<in> set m"
  by (induction m) (auto split: if_splits)

lemma mapDelete_distinct: "distinct (map fst m) \<Longrightarrow> distinct (map fst (mapDelete k m))"
  by (simp add: mapDelete_def distinct_map_filter)

lemma keysMatch_mapSet:
  assumes "keysMatch s" "play_id play = k"
  shows "keysMatch (s\<lparr> ms_plays := mapSet k play (ms_plays s) \<rparr>)"
  using assms
  by (auto simp: keysMatch_def list_all_iff mapSet_distinct dest!: mapSet_entries)

lemma keysMatch_mapDelete:
  assumes "keysMatch s"
  shows "keysMatch (s\<lparr> ms_plays := mapDelete k (ms_plays s) \<rparr>)"
  using assms
  by (auto simp: keysMatch_def list_all_iff mapDelete_distinct) (auto simp: mapDelete_def)

lemma map_of_keysMatch:
  "keysMatch s \<Longrightarrow> map_of (ms_plays s) k = Some play \<Longrightarrow> play_id play = k"
  by (auto simp: keysMatch_def list_all_iff dest: map_of_SomeD)

lemma deleteFolder_plays_foldl:
  "ms_plays (foldl (\<lambda>s' play. s'\<lparr> ms_plays := mapDelete (play_id play) (ms_plays s') \<rparr>) s ps) =
   filter (\<lambda>(k, _). k \<notin> play_id ` set ps) (ms_plays s)"
  by (induction ps arbitrary: s) (auto simp: mapDelete_def intro: filter_cong)

lemma deleteFolder_others_foldl:
  "ms_folders (foldl (\<lambda>s' play. s'\<lparr> ms_plays := mapDelete (play_id play) (ms_plays s') \<rparr>) s ps) =
   ms_folders s"
  by (induction ps arbitrary: s) auto

lemma deleteFolder_plays:
  assumes "keysMatch s"
  shows "ms_plays (snd (deleteFolder i s)) =
         filter (\<lambda>(k, play). play_folderId play \<noteq> i) (ms_plays s)"
proof -
  let ?ps = "filter (\<lambda>play. play_folderId play = i) (mapValues (ms_plays s))"
  have "filter (\<lambda>(k, _). k \<notin> play_id ` set ?ps) (ms_plays s) =
        filter (\<lambda>(k, play). play_folderId play \<noteq> i) (ms_plays s)"
  proof (rule filter_cong [OF refl], clarify)
    fix k play
    assume mem: "(k, play) \<in> set (ms_plays s)"
    with assms have own: "play_id play = k"
      by (auto simp: keysMatch_def list_all_iff)
    show "(k \<notin> play_id ` set ?ps) = (play_folderId play \<noteq> i)"
    proof
      assume "k \<notin> play_id ` set ?ps"
      with mem own show "play_folderId play \<noteq> i"
        by (force simp: mapValues_def)
    next
      assume other: "play_folderId play \<noteq> i"
      show "k \<notin> play_id ` set ?ps"
      proof
        assume "k \<in> play_id ` set ?ps"
        then obtain k' play' where p': "(k', play') \<in> set (ms_plays s)"
          "play_folderId play' = i" "play_id play' = k"
          by (auto simp: mapValues_def)
        with assms have "k' = k" by (auto simp: keysMatch_def list_all_iff)
        with p' mem assms have "play' = play"
          by (auto simp: keysMatch_def dest: eq_key_imp_eq_value)
        with p' other show False by simp
      qed
    qed
  qed
  then show ?thesis
    by (simp add: deleteFolder_def Let_def deleteFolder_plays_foldl)
qed

lemma keysMatch_new: "keysMatch (newMemStorage now)"
  by (simp add: newMemStorage_def createUser_def createFolder_def keysMatch_def Let_def)

lemma keysMatch_deleteFolder:
  assumes "keysMatch s"
  shows "keysMatch (snd (deleteFolder i s))"
proof -
  have "ms_plays (snd (deleteFolder i s)) =
        filter (\<lambda>(k, play). play_folderId play \<noteq> i) (ms_plays s)"
    by (rule deleteFolder_plays [OF assms])
  with assms show ?thesis
    by (auto simp: keysMatch_def distinct_map_filter list_all_iff)
qed

text \<open>
  The methods keep every play under its own id, \<^verbatim>\<open>updatePlay\<close> when the update carries
  no \<^verbatim>\<open>id\<close>.
\<close>

lemma keysMatch_createPlay:
  assumes "keysMatch s"
  shows "keysMatch (snd (createPlay now insertPlay s))"
proof -
  let ?s1 = "s\<lparr> currentPlayId := fadd (currentPlayId s) 1 \<rparr>"
  let ?play = "\<lparr> play_id = currentPlayId s, play_name = ip_name insertPlay,
                 play_folderId = ip_folderId insertPlay, play_userId = ip_userId insertPlay,
                 play_canvas = ip_canvas insertPlay, play_createdAt = now,
                 play_updatedAt = now \<rparr>"
  have k1: "keysMatch ?s1"
    using assms by (simp add: keysMatch_def)
  have "keysMatch (?s1\<lparr> ms_plays := mapSet (currentPlayId s) ?play (ms_plays ?s1) \<rparr>)"
    by (rule keysMatch_mapSet [OF k1]) simp
  with k1 show ?thesis
    by (simp add: createPlay_def Let_def split: sum.splits)
qed

lemma keysMatch_updatePlay:
  assumes km: "keysMatch s" and noId: "pu_id playUpdate = None"
  shows "keysMatch (snd (updatePlay now i playUpdate s))"
proof (cases "map_of (ms_plays s) i")
  case None
  with km show ?thesis by (simp add: updatePlay_def)
next
  case (Some play)
  let ?updated = "\<lparr> play_id = play_id play,
      play_name = (case pu_name playUpdate of None \<Rightarrow> play_name play | Some v \<Rightarrow> v),
      play_folderId = (case pu_folderId playUpdate of None \<Rightarrow> play_folderId play | Some v \<Rightarrow> v),
      play_userId = (case pu_userId playUpdate of None \<Rightarrow> play_userId play | Some v \<Rightarrow> v),
      play_canvas = (case pu_canvas playUpdate of None \<Rightarrow> play_canvas play | Some v \<Rightarrow> v),
      play_createdAt =
        (case pu_createdAt playUpdate of None \<Rightarrow> play_createdAt play | Some v \<Rightarrow> v),
      play_updatedAt = now \<rparr>"
  from km Some have "play_id play = i" by (rule map_of_keysMatch)
  then have "keysMatch (s\<lparr> ms_plays := mapSet i ?updated (ms_plays s) \<rparr>)"
    by (intro keysMatch_mapSet [OF km]) simp
  with Some km noId show ?thesis
    by (cases "validateUpdate playUpdate") (simp_all add: updatePlay_def Let_def)
qed

lemma keysMatch_deletePlay:
  assumes "keysMatch s"
  shows "keysMatch (snd (deletePlay i s))"
  using keysMatch_mapDelete [OF assms] by (simp add: deletePlay_def)

lemma map_of_mapDelete: "map_of (mapDelete k m) k = None"
  by (induction m) (auto simp: mapDelete_def)

text \<open>
  Where every play is stored under its own id, \<^verbatim>\<open>deleteFolder\<close> removes exactly the
  plays of the folder and then the folder.
\<close>

lemma deleteFolder_keysMatch:
  assumes km: "keysMatch s"
  shows "ms_plays (snd (deleteFolder i s)) =
           filter (\<lambda>(k, play). play_folderId play \<noteq> i) (ms_plays s) \<and>
         getPlays i (snd (deleteFolder i s)) = [] \<and>
         getFolder i (snd (deleteFolder i s)) = None \<and>
         fst (deleteFolder i s) = (getFolder i s \<noteq> None)"
proof -
  have plays: "ms_plays (snd (deleteFolder i s)) =
           filter (\<lambda>(k, play). play_folderId play \<noteq> i) (ms_plays s)"
    by (rule deleteFolder_plays [OF km])
  have "list_all (\<lambda>play. play_folderId play \<noteq> i)
                (mapValues (ms_plays (snd (deleteFolder i s))))"
    unfolding plays by (auto simp: list_all_iff mapValues_def)
  then have "filter (\<lambda>play. play_folderId play = i)
               (mapValues (ms_plays (snd (deleteFolder i s)))) = []"
    by (auto simp: list_all_iff filter_empty_conv)
  then have empty: "getPlays i (snd (deleteFolder i s)) = []"
    by (simp add: getPlays_def)
  have gone: "getFolder i (snd (deleteFolder i s)) = None"
    by (simp add: getFolder_def deleteFolder_def Let_def map_of_mapDelete)
  have res: "fst (deleteFolder i s) = (getFolder i s \<noteq> None)"
    by (simp add: getFolder_def deleteFolder_def Let_def deleteFolder_others_foldl)
  from plays empty gone res show ?thesis by blast
qed

lemma stored_eval:
  "stored =
     \<lparr> ms_users = [(1, \<lparr> user_id = 1, user_username = ''demo'', user_password = ''password'' \<rparr>)],
       ms_folders =
         [(1, \<lparr> folder_id = 1, folder_name = ''Offense Plays'', folder_userId = 1,
                folder_createdAt = 0 \<rparr>),
          (2, \<lparr> folder_id = 2, folder_name = ''Defense Plays'', folder_userId = 1,
                folder_createdAt = 0 \<rparr>),
          (3, \<lparr> folder_id = 3, folder_name = ''Face-off Strategies'', folder_userId = 1,
                folder_createdAt = 0 \<rparr>)],
       ms_plays =
         [(1, \<lparr> play_id = 1, play_name = ''Fast break'', play_folderId = 1, play_userId = 1,
                play_canvas = JArr [], play_createdAt = 10, play_updatedAt = 10 \<rparr>),
          (2, \<lparr> play_id = 2, play_name = ''Clear'', play_folderId = 2, play_userId = 1,
                play_canvas = JArr [], play_createdAt = 20, play_updatedAt = 20 \<rparr>)],
       currentUserId = 2, currentFolderId = 4, currentPlayId = 3 \<rparr>"
  by (simp add: stored_def newMemStorage_def createUser_def createFolder_def createPlay_def
      parseCanvas_def fadd_def Let_def)

lemma stored_keysMatch: "keysMatch stored"
  by (simp add: stored_eval keysMatch_def)

lemma stored_deleteFolder:
  "map play_name (getPlays 1 stored) = [''Fast break''] \<and>
   getPlays 1 (snd (deleteFolder 1 stored)) = [] \<and>
   map play_name (mapValues (ms_plays (snd (deleteFolder 1 stored)))) = [''Clear'']"
  using deleteFolder_keysMatch [OF stored_keysMatch, of 1]
  by (simp add: stored_eval getPlays_def mapValues_def)

lemma renumbered_eval:
  "renumbered =
     stored\<lparr> ms_plays :=
         [(1, \<lparr> play_id = 7, play_name = ''Fast break'', play_folderId = 1, play_userId = 1,
                play_canvas = JArr [], play_createdAt = 10, play_updatedAt = 30 \<rparr>),
          (2, \<lparr> play_id = 2, play_name = ''Clear'', play_folderId = 2, play_userId = 1,
                play_canvas = JArr [], play_createdAt = 20, play_updatedAt = 20 \<rparr>)] \<rparr>"
  by (simp add: renumbered_def stored_eval updatePlay_def validateUpdate_def Let_def)

lemma renumbered_reachable: "reachable renumbered"
  unfolding renumbered_def stored_def by (intro reachable.intros)

text \<open>
  Claim C10 does not hold of every state the storage reaches.  \<^verbatim>\<open>updatePlay\<close> spreads
  every property of the update over the play, its \<^verbatim>\<open>id\<close> too, and stores the result
  under the old key; \<^verbatim>\<open>deleteFolder\<close> deletes each play of the folder under the play's
  \<^verbatim>\<open>id\<close>, which is then not its key.  The state after the update of play 1 with an
  object carrying \<^verbatim>\<open>id: 7\<close> is one the methods reach; the play with id 7 is stored
  under key 1; \<^verbatim>\<open>deleteFolder(1)\<close> removes the folder and answers true, and the play
  is still listed by \<^verbatim>\<open>getPlays(1)\<close> and still refers to folder 1.
\<close>

theorem deleteFolder_leaves_play:
  "reachable renumbered \<and>
   map fst (ms_plays renumbered) = [1, 2] \<and>
   map play_id (getPlays 1 renumbered) = [7] \<and>
   getFolder 1 renumbered \<noteq> None \<and>
   fst (deleteFolder 1 renumbered) \<and>
   getFolder 1 (snd (deleteFolder 1 renumbered)) = None \<and>
   map play_name (getPlays 1 (snd (deleteFolder 1 renumbered))) = [''Fast break''] \<and>
   map play_folderId (mapValues (ms_plays (snd (deleteFolder 1 renumbered)))) = [1, 2]"
  using renumbered_reachable
  by (simp add: renumbered_eval stored_eval getPlays_def getFolder_def
      deleteFolder_def mapValues_def mapDelete_def Let_def)

section \<open>Properties of the create-play route\<close>

text \<open>
  With the database storage every body that passes the insert schema with a canvas other
  than \<^verbatim>\<open>null\<close> is stored.
\<close>

lemma apiPostPlays_created:
  assumes "insertPlaySchema ((''userId'', JNum 1) # bodyProps body) = Inr parsed"
    and "ip_canvas parsed \<noteq> JNull"
  shows "res_status (fst (apiPostPlays now body db)) = 201"
  using assms by (simp add: apiPostPlays_def postPlays_def dbCreatePlay_def Let_def)

text \<open>With the in-memory storage an invalid canvas is answered with 400.\<close>

lemma postPlays_mem_rejects:
  assumes "insertPlaySchema ((''userId'', JNum 1) # bodyProps body) = Inr parsed"
    and "parseCanvas (ip_canvas parsed) = Inl ZodError"
  shows "res_status (fst (postPlays createPlay now body s)) = 400"
  using assms by (simp add: postPlays_def createPlay_def caught_def Let_def)

text \<open>
  Claim C3 does not hold of the route as it is wired.  The element without \<^verbatim>\<open>type\<close>
  violates the element schema, yet the request is answered with 201 and the play is
  stored with that canvas: the route validates the body against the insert schema only,
  whose canvas is any JSON value, and the database storage does not validate.  The
  in-memory storage, given the same request, answers 400.
\<close>

theorem post_invalid_canvas_created:
  "\<not> canvasElementSchema untypedElement \<and>
   res_status (fst (apiPostPlays 0 untypedRequest emptyDatabase)) = 201 \<and>
   map play_canvas (db_plays (snd (apiPostPlays 0 untypedRequest emptyDatabase))) =
     [JArr [untypedElement]] \<and>
   res_status (fst (postPlays createPlay 0 untypedRequest (newMemStorage 0))) = 400"
  by (simp add: canvasElementSchema_def untypedElement_def untypedRequest_def
      emptyDatabase_def apiPostPlays_def postPlays_def dbCreatePlay_def insertPlaySchema_def
      bodyProps_def createPlay_def parseCanvas_def caught_def isInteger_def Let_def)

end
